theory Spec2Isabelle
  imports Complex_Main
begin

section \<open>Errors\<close>

text \<open>
  Every exception the modelled Python code can raise is a value of this type. A function
  that may raise returns \<open>error + 'a\<close>, with \<open>Inl\<close> for the exception. The string of
  a \<open>TypeError\<close> is the name the message of \<open>forward_test\<close> starts with.
\<close>

datatype error =
    AssertionError
  | TypeError string
  | ValueError
  | IndexError
  | KeyError
  | RuntimeError
  | ZeroDivisionError

section \<open>The detector base class (mmdet/models/detectors/base.py)\<close>

text \<open>
  The arguments \<open>imgs\<close> and \<open>img_metas\<close> of a detector are dynamically typed:
  \<open>forward_test\<close> tests them with \<open>isinstance(var, list)\<close>. An argument is either a
  Python list or some other object (in training, \<open>img\<close> is a single tensor).
\<close>

datatype 'a arg = NonList 'a | PyList "'a list"

text \<open>
  The abstract methods of \<open>BaseDetector\<close> are the fields of a record: a concrete
  detector supplies them. Each may raise.
\<close>

record ('img, 'meta, 'kw, 'r) detector =
  forward_train :: "'img arg \<Rightarrow> 'meta arg \<Rightarrow> 'kw \<Rightarrow> error + 'r"
  simple_test :: "'img \<Rightarrow> 'meta \<Rightarrow> 'kw \<Rightarrow> error + 'r"
  aug_test :: "'img list \<Rightarrow> 'meta list \<Rightarrow> 'kw \<Rightarrow> error + 'r"

text \<open>
  \<open>forward_test\<close> (lines 65 to 83). The loop over \<open>[(imgs, 'imgs'), (img_metas,
  'img_metas')]\<close> is the two list tests in that order. \<open>size0\<close> is the tensor method
  \<open>.size(0)\<close>, the batch size of an image tensor. \<open>imgs[0]\<close> on an empty list raises
  IndexError before the assertion is reached.
\<close>

definition forward_test ::
  "('img \<Rightarrow> nat) \<Rightarrow> ('img, 'meta, 'kw, 'r) detector \<Rightarrow> 'img arg \<Rightarrow> 'meta arg \<Rightarrow> 'kw
     \<Rightarrow> error + 'r" where
  "forward_test size0 self imgs img_metas kwargs =
     (case imgs of
        NonList _ \<Rightarrow> Inl (TypeError ''imgs'')
      | PyList il \<Rightarrow>
         (case img_metas of
            NonList _ \<Rightarrow> Inl (TypeError ''img_metas'')
          | PyList ml \<Rightarrow>
             (let num_augs = length il in
              if num_augs \<noteq> length ml then Inl ValueError
              else
                (case il of
                   [] \<Rightarrow> Inl IndexError
                 | img0 # _ \<Rightarrow>
                    (let imgs_per_gpu = size0 img0 in
                     if imgs_per_gpu \<noteq> 1 then Inl AssertionError
                     else if num_augs = 1 then
                       (case ml of
                          [] \<Rightarrow> Inl IndexError
                        | meta0 # _ \<Rightarrow> simple_test self img0 meta0 kwargs)
                     else aug_test self il ml kwargs)))))"

text \<open>
  \<open>forward\<close> (lines 85 to 90). The method is wrapped by the decorator
  \<open>auto_fp16(apply_to=('img', ))\<close>, which is defined in \<open>mmdet.core\<close>, outside the
  files at hand. The decorator acts on the argument named \<open>img\<close> before the body
  runs; that action is the parameter \<open>auto_fp16\<close>.
\<close>

definition forward ::
  "('img arg \<Rightarrow> 'img arg) \<Rightarrow> ('img \<Rightarrow> nat) \<Rightarrow> ('img, 'meta, 'kw, 'r) detector
     \<Rightarrow> 'img arg \<Rightarrow> 'meta arg \<Rightarrow> bool \<Rightarrow> 'kw \<Rightarrow> error + 'r" where
  "forward auto_fp16 size0 self img img_meta return_loss kwargs =
     (let img = auto_fp16 img in
      if return_loss then forward_train self img img_meta kwargs
      else forward_test size0 self img img_meta kwargs)"

text \<open>
  A concrete detector for evaluation: an image is modelled by its batch size, a result
  says which method produced it and on how many augmentations.
\<close>

datatype path = ViaTrain | ViaSimple nat | ViaAug nat

definition demo_detector :: "(nat, unit, unit, path) detector" where
  "demo_detector =
     \<lparr> forward_train = (\<lambda>_ _ _. Inr ViaTrain),
       simple_test = (\<lambda>i _ _. Inr (ViaSimple i)),
       aug_test = (\<lambda>il _ _. Inr (ViaAug (length il))) \<rparr>"

definition batch_of :: "nat \<Rightarrow> nat" where
  "batch_of n = n"

definition fp16_off :: "nat arg \<Rightarrow> nat arg" where
  "fp16_off a = a"

section \<open>Tensor primitives used by the anchor targets\<close>

text \<open>
  A tensor of shape \<open>(n,)\<close> is a list of its \<open>n\<close> entries, a tensor of shape
  \<open>(n, 4)\<close> a list of its \<open>n\<close> rows. The primitives below are those of the tensor
  library the code calls; each is written with the failure it raises.
\<close>

type_synonym row4 = "real \<times> real \<times> real \<times> real"

fun ebind :: "error + 'a \<Rightarrow> ('a \<Rightarrow> error + 'b) \<Rightarrow> error + 'b" where
  "ebind (Inl e) f = Inl e"
| "ebind (Inr v) f = f v"

definition eassert :: "bool \<Rightarrow> error + unit" where
  "eassert b = (if b then Inr () else Inl AssertionError)"

text \<open>\<open>torch.cat\<close> along the first dimension; an empty list of tensors is refused.\<close>

definition cat :: "'a list list \<Rightarrow> error + 'a list" where
  "cat ts = (if ts = [] then Inl RuntimeError else Inr (concat ts))"

text \<open>
  Broadcasting of a one-dimensional operand to length \<open>k\<close>: the operand has length
  \<open>k\<close>, or length 1 and is repeated; any other length is a shape error.
\<close>

definition broadcast_to :: "nat \<Rightarrow> 'a list \<Rightarrow> error + 'a list" where
  "broadcast_to k vs =
     (if length vs = k then Inr vs
      else if length vs = 1 then Inr (replicate k (vs ! 0))
      else Inl RuntimeError)"

text \<open>The elementwise \<open>&\<close> of two boolean vectors, with broadcasting.\<close>

definition bool_and :: "bool list \<Rightarrow> bool list \<Rightarrow> error + bool list" where
  "bool_and xs ys =
     (if length xs = length ys then Inr (map2 (\<and>) xs ys)
      else if length xs = 1 then Inr (map ((\<and>) (xs ! 0)) ys)
      else if length ys = 1 then Inr (map (\<lambda>x. x \<and> ys ! 0) xs)
      else Inl RuntimeError)"

text \<open>\<open>data[mask]\<close> for a boolean mask: the mask must be as long as the data.\<close>

definition mask_select :: "'a list \<Rightarrow> bool list \<Rightarrow> error + 'a list" where
  "mask_select xs msk =
     (if length msk \<noteq> length xs then Inl IndexError
      else Inr (map fst (filter snd (zip xs msk))))"

text \<open>
  \<open>ret[mask] = data\<close> for a boolean mask: the entries of \<open>data\<close> go, in order, to the
  positions where the mask is true.
\<close>

fun mask_put :: "'a list \<Rightarrow> bool list \<Rightarrow> 'a list \<Rightarrow> 'a list" where
  "mask_put (r # rs) (True # ms) (d # ds) = d # mask_put rs ms ds"
| "mask_put (r # rs) (False # ms) ds = r # mask_put rs ms ds"
| "mask_put rs _ _ = rs"

text \<open>
  \<open>ret[inds] = data\<close> and \<open>ret[inds] = c\<close> for a vector of indices: every index must
  be in range, the values must broadcast to the number of indices, and a later write to
  the same index overwrites an earlier one.
\<close>

definition index_put :: "'a list \<Rightarrow> nat list \<Rightarrow> 'a list \<Rightarrow> error + 'a list" where
  "index_put xs inds vals =
     ebind (broadcast_to (length inds) vals) (\<lambda>vs.
       if list_all (\<lambda>i. i < length xs) inds
       then Inr (fold (\<lambda>(i, v) acc. acc[i := v]) (zip inds vs) xs)
       else Inl IndexError)"

definition index_fill :: "'a list \<Rightarrow> nat list \<Rightarrow> 'a \<Rightarrow> error + 'a list" where
  "index_fill xs inds c =
     (if list_all (\<lambda>i. i < length xs) inds
      then Inr (fold (\<lambda>i acc. acc[i := c]) inds xs)
      else Inl IndexError)"

text \<open>\<open>data[inds]\<close> for a vector of indices.\<close>

definition index_select :: "'a list \<Rightarrow> nat list \<Rightarrow> error + 'a list" where
  "index_select xs inds =
     (if list_all (\<lambda>i. i < length xs) inds then Inr (map ((!) xs) inds)
      else Inl IndexError)"

text \<open>
  \<open>torch.stack(ts, 0)\<close>: a non-empty list of tensors of one shape becomes a tensor with
  one row per element.
\<close>

definition stack :: "'a list list \<Rightarrow> error + 'a list list" where
  "stack ts =
     (case ts of
        [] \<Rightarrow> Inl RuntimeError
      | t # _ \<Rightarrow> if list_all (\<lambda>u. length u = length t) ts then Inr ts else Inl RuntimeError)"

section \<open>Anchor targets (mmdet/core/anchor/anchor_target.py)\<close>

text \<open>
  \<open>unmap\<close> (lines 198 to 208). A row of a two-dimensional tensor is one list element,
  so the branch for one-dimensional data and the branch for the other dimensions are
  the same function on lists.
\<close>

definition unmap :: "'a list \<Rightarrow> nat \<Rightarrow> bool list \<Rightarrow> 'a \<Rightarrow> error + 'a list" where
  "unmap data count inds fill =
     (let ret = replicate count fill in
      if length inds \<noteq> count then Inl IndexError
      else ebind (broadcast_to (length (filter id inds)) data) (\<lambda>d.
             Inr (mask_put ret inds d)))"

text \<open>\<open>anchor_inside_flags\<close> (lines 184 to 195). \<open>img_shape\<close> is \<open>(img_h, img_w)\<close>.\<close>

definition anchor_inside_flags ::
  "row4 list \<Rightarrow> bool list \<Rightarrow> nat \<times> nat \<Rightarrow> int \<Rightarrow> error + bool list" where
  "anchor_inside_flags flat_anchors valid_flags img_shape allowed_border =
     (case img_shape of (img_h, img_w) \<Rightarrow>
        if allowed_border \<ge> 0 then
          ebind (bool_and valid_flags
                   (map (\<lambda>(x1, y1, x2, y2). x1 \<ge> - of_int allowed_border) flat_anchors)) (\<lambda>f0.
          ebind (bool_and f0
                   (map (\<lambda>(x1, y1, x2, y2). y1 \<ge> - of_int allowed_border) flat_anchors)) (\<lambda>f1.
          ebind (bool_and f1
                   (map (\<lambda>(x1, y1, x2, y2). x2 < of_int (int img_w + allowed_border))
                      flat_anchors)) (\<lambda>f2.
          bool_and f2
            (map (\<lambda>(x1, y1, x2, y2). y2 < of_int (int img_h + allowed_border))
               flat_anchors))))
        else Inr valid_flags)"

text \<open>
  The training configuration \<open>cfg\<close>: the fields the code reads, and the assigner
  configuration handed to \<open>build_assigner\<close>.
\<close>

record 'a train_cfg =
  allowed_border :: int
  pos_weight :: real
  assigner :: 'a

record img_meta =
  img_shape :: "nat \<times> nat \<times> nat"

text \<open>The fields of a sampling result that \<open>anchor_target_single\<close> reads.\<close>

record sampling_result =
  pos_inds :: "nat list"
  neg_inds :: "nat list"
  pos_bboxes :: "row4 list"
  pos_gt_bboxes :: "row4 list"
  pos_assigned_gt_inds :: "nat list"

text \<open>
  The functions imported from \<open>mmdet.core.bbox\<close> are defined outside the files at hand
  and are parameters: \<open>assign_and_sample\<close>, the \<open>assign\<close> method of the assigner that
  \<open>build_assigner\<close> builds from its configuration, the \<open>sample\<close> method of
  \<open>PseudoSampler\<close>, and \<open>bbox2delta\<close>.
\<close>

record ('a, 'r) bbox_ops =
  assign_and_sample ::
    "row4 list \<Rightarrow> row4 list \<Rightarrow> row4 list option \<Rightarrow> int list option \<Rightarrow> 'a train_cfg
       \<Rightarrow> 'r \<times> sampling_result"
  assigner_assign ::
    "'a \<Rightarrow> row4 list \<Rightarrow> row4 list \<Rightarrow> row4 list option \<Rightarrow> int list option \<Rightarrow> 'r"
  pseudo_sample :: "'r \<Rightarrow> row4 list \<Rightarrow> row4 list \<Rightarrow> sampling_result"
  bbox2delta :: "row4 list \<Rightarrow> row4 list \<Rightarrow> real list \<Rightarrow> real list \<Rightarrow> row4 list"

text \<open>
  The six components \<open>anchor_target_single\<close> returns: labels, label weights, box
  targets, box weights, positive indices, negative indices; each may be \<open>None\<close>.
\<close>

type_synonym single_result =
  "int list option \<times> real list option \<times> row4 list option \<times> row4 list option
     \<times> nat list option \<times> nat list option"

definition zero_row :: row4 where
  "zero_row = (0, 0, 0, 0)"

definition one_row :: row4 where
  "one_row = (1, 1, 1, 1)"

text \<open>
  \<open>anchor_target_single\<close> (lines 101 to 181) is written in four parts. The first is
  the choice of the sampler, lines 134 to 143: \<open>assign_and_sample\<close> (called with
  \<open>None\<close> for the labels) when \<open>sampling\<close> is set, otherwise the configured assigner
  followed by the pseudo sampler.
\<close>

definition sample_anchors ::
  "('a, 'r) bbox_ops \<Rightarrow> 'a train_cfg \<Rightarrow> bool \<Rightarrow> row4 list \<Rightarrow> row4 list \<Rightarrow> row4 list option
     \<Rightarrow> int list option \<Rightarrow> sampling_result" where
  "sample_anchors ops cfg sampling anchors gt_bboxes gt_bboxes_ignore gt_labels =
     (if sampling then snd (assign_and_sample ops anchors gt_bboxes gt_bboxes_ignore None cfg)
      else
        (let assign_result =
               assigner_assign ops (assigner cfg) anchors gt_bboxes gt_bboxes_ignore gt_labels
         in pseudo_sample ops assign_result anchors gt_bboxes))"

text \<open>
  The second part is the body of \<open>if len(pos_inds) > 0\<close>, lines 148 to 161, on the
  four target tensors. The statements run in the order of the source, so the first
  failing one decides the exception.
\<close>

definition assign_positives ::
  "('a, 'r) bbox_ops \<Rightarrow> 'a train_cfg \<Rightarrow> sampling_result \<Rightarrow> int list option \<Rightarrow> real list
     \<Rightarrow> real list \<Rightarrow> row4 list \<times> row4 list \<times> int list \<times> real list
     \<Rightarrow> error + row4 list \<times> row4 list \<times> int list \<times> real list" where
  "assign_positives ops cfg sampling_result gt_labels target_means target_stds tensors =
     (case tensors of (bbox_targets, bbox_weights, labels, label_weights) \<Rightarrow>
      let pos = pos_inds sampling_result;
          pos_bbox_targets =
            bbox2delta ops (pos_bboxes sampling_result) (pos_gt_bboxes sampling_result)
              target_means target_stds
      in
      ebind (index_put bbox_targets pos pos_bbox_targets) (\<lambda>bbox_targets.
      ebind (index_fill bbox_weights pos one_row) (\<lambda>bbox_weights.
      ebind
        (case gt_labels of
           None \<Rightarrow> index_fill labels pos 1
         | Some gl \<Rightarrow>
             ebind (index_select gl (pos_assigned_gt_inds sampling_result))
               (index_put labels pos)) (\<lambda>labels.
      ebind (eassert (pos_weight cfg \<le> 0)) (\<lambda>_.
      ebind (index_fill label_weights pos 1) (\<lambda>label_weights.
      Inr (bbox_targets, bbox_weights, labels, label_weights)))))))"

text \<open>
  The third part is the four calls of \<open>unmap\<close>, which stand at lines 128 to 131 and
  again at lines 174 to 177.
\<close>

definition unmap_all ::
  "nat \<Rightarrow> bool list \<Rightarrow> int list \<times> real list \<times> row4 list \<times> row4 list
     \<Rightarrow> error + int list \<times> real list \<times> row4 list \<times> row4 list" where
  "unmap_all num_total_anchors inside_flags tensors =
     (case tensors of (labels, label_weights, bbox_targets, bbox_weights) \<Rightarrow>
      ebind (unmap labels num_total_anchors inside_flags 0) (\<lambda>labels.
      ebind (unmap label_weights num_total_anchors inside_flags 0) (\<lambda>label_weights.
      ebind (unmap bbox_targets num_total_anchors inside_flags zero_row) (\<lambda>bbox_targets.
      ebind (unmap bbox_weights num_total_anchors inside_flags zero_row) (\<lambda>bbox_weights.
      Inr (labels, label_weights, bbox_targets, bbox_weights))))))"

text \<open>
  The function itself. \<open>label_channels\<close> is accepted and never read, as in the source.
\<close>

definition anchor_target_single ::
  "('a, 'r) bbox_ops \<Rightarrow> row4 list \<Rightarrow> bool list \<Rightarrow> row4 list option \<Rightarrow> row4 list option
     \<Rightarrow> int list option \<Rightarrow> img_meta \<Rightarrow> real list \<Rightarrow> real list \<Rightarrow> 'a train_cfg
     \<Rightarrow> nat \<Rightarrow> bool \<Rightarrow> bool \<Rightarrow> error + single_result" where
  "anchor_target_single ops flat_anchors valid_flags gt_bboxes gt_bboxes_ignore gt_labels meta
       target_means target_stds cfg label_channels sampling unmap_outputs =
     (case img_shape meta of (img_h, img_w, _) \<Rightarrow>
      ebind (anchor_inside_flags flat_anchors valid_flags (img_h, img_w) (allowed_border cfg))
        (\<lambda>inside_flags.
      if \<not> list_ex id inside_flags then Inr (None, None, None, None, None, None)
      else
      ebind (mask_select flat_anchors inside_flags) (\<lambda>anchors.
      let num_valid_anchors = length anchors;
          bbox_targets = replicate num_valid_anchors zero_row;
          bbox_weights = replicate num_valid_anchors zero_row;
          labels = replicate num_valid_anchors (0 :: int);
          label_weights = replicate num_valid_anchors (0 :: real)
      in
      case (case gt_bboxes of None \<Rightarrow> None | Some g \<Rightarrow> if length g = 0 then None else Some g) of
        None \<Rightarrow>
          (let label_weights = map (\<lambda>_. 1) label_weights;
               num_total_anchors = length flat_anchors
           in
           ebind (unmap_all num_total_anchors inside_flags
                    (labels, label_weights, bbox_targets, bbox_weights))
             (\<lambda>(labels, label_weights, bbox_targets, bbox_weights).
           Inr (Some labels, Some label_weights, Some bbox_targets, Some bbox_weights,
                None, None)))
      | Some gt \<Rightarrow>
          (let sampling_result =
                 sample_anchors ops cfg sampling anchors gt gt_bboxes_ignore gt_labels;
               pos = pos_inds sampling_result;
               neg = neg_inds sampling_result
           in
           ebind
             (if length pos > 0 then
                assign_positives ops cfg sampling_result gt_labels target_means target_stds
                  (bbox_targets, bbox_weights, labels, label_weights)
              else Inr (bbox_targets, bbox_weights, labels, label_weights))
             (\<lambda>(bbox_targets, bbox_weights, labels, label_weights).
           ebind (if length neg > 0 then index_fill label_weights neg 1 else Inr label_weights)
             (\<lambda>label_weights.
           ebind
             (if unmap_outputs then
                (let num_total_anchors = length flat_anchors in
                 unmap_all num_total_anchors inside_flags
                   (labels, label_weights, bbox_targets, bbox_weights))
              else Inr (labels, label_weights, bbox_targets, bbox_weights))
             (\<lambda>(labels, label_weights, bbox_targets, bbox_weights).
           ebind (eassert (sum_list label_weights = real (length pos + length neg))) (\<lambda>_.
           Inr (Some labels, Some label_weights, Some bbox_targets, Some bbox_weights,
                Some pos, Some neg)))))))))"

text \<open>
  \<open>images_to_levels\<close> (lines 86 to 98). \<open>target[:, start:end]\<close> cuts every row;
  \<open>squeeze(0)\<close> drops the first dimension when there is exactly one image.
\<close>

datatype 'a lvl = Squeezed "'a list" | Batched "'a list list"

definition squeeze0 :: "'a list list \<Rightarrow> 'a lvl" where
  "squeeze0 t = (case t of [r] \<Rightarrow> Squeezed r | _ \<Rightarrow> Batched t)"

fun level_slices :: "nat \<Rightarrow> nat list \<Rightarrow> 'a list list \<Rightarrow> 'a lvl list" where
  "level_slices start [] target = []"
| "level_slices start (n # ns) target =
     (let end = start + n in
      squeeze0 (map (\<lambda>row. take (end - start) (drop start row)) target)
        # level_slices end ns target)"

definition images_to_levels :: "'a list list \<Rightarrow> nat list \<Rightarrow> error + 'a lvl list" where
  "images_to_levels target num_level_anchors =
     ebind (stack target) (\<lambda>target. Inr (level_slices 0 num_level_anchors target))"

text \<open>
  \<open>multi_apply\<close> is imported from \<open>mmdet.core.utils\<close>: it maps the function over its
  argument lists in parallel, as far as the shortest reaches, and an exception of one call
  ends the whole map. The lists are zipped by the caller below.
\<close>

fun multi_apply :: "('x \<Rightarrow> error + 'y) \<Rightarrow> 'x list \<Rightarrow> error + 'y list" where
  "multi_apply f [] = Inr []"
| "multi_apply f (x # xs) = ebind (f x) (\<lambda>y. ebind (multi_apply f xs) (\<lambda>ys. Inr (y # ys)))"

text \<open>
  The caller's lists \<open>anchor_list\<close> and \<open>valid_flag_list\<close> are mutable: a slot holds the
  list of per-level tensors the caller put there, or the flat tensor that
  \<open>anchor_target\<close> stores in its place.
\<close>

datatype 'a slot = Levels "'a list list" | Flat "'a list"

text \<open>
  The loop of lines 38 to 41 over the image indices, on the two lists. It returns the
  exception that stopped it, if any, and the lists as they are at that moment.
\<close>

fun concat_levels ::
  "nat list \<Rightarrow> row4 slot list \<times> bool slot list
     \<Rightarrow> error option \<times> (row4 slot list \<times> bool slot list)" where
  "concat_levels [] st = (None, st)"
| "concat_levels (i # rest) (al, vl) =
     (case (al ! i, vl ! i) of
        (Levels a, Levels v) \<Rightarrow>
          if length a \<noteq> length v then (Some AssertionError, (al, vl))
          else
            (case cat a of
               Inl e \<Rightarrow> (Some e, (al, vl))
             | Inr fa \<Rightarrow>
                 (case cat v of
                    Inl e \<Rightarrow> (Some e, (al[i := Flat fa], vl))
                  | Inr fv \<Rightarrow> concat_levels rest (al[i := Flat fa], vl[i := Flat fv])))
      | _ \<Rightarrow> (Some (TypeError ''anchor_list''), (al, vl)))"

text \<open>The value \<open>anchor_target\<close> returns when it does not return \<open>None\<close>.\<close>

type_synonym targets =
  "int lvl list \<times> real lvl list \<times> row4 lvl list \<times> row4 lvl list \<times> real \<times> real"

text \<open>
  \<open>anchor_target\<close> (lines 6 to 83). The result is the returned value or the exception,
  together with the caller's two lists as the call leaves them.
\<close>

definition anchor_target ::
  "('a, 'r) bbox_ops \<Rightarrow> row4 list list list \<Rightarrow> bool list list list \<Rightarrow> row4 list option list
     \<Rightarrow> img_meta list \<Rightarrow> real list \<Rightarrow> real list \<Rightarrow> 'a train_cfg
     \<Rightarrow> row4 list option list option \<Rightarrow> int list option list option \<Rightarrow> nat \<Rightarrow> bool \<Rightarrow> bool
     \<Rightarrow> (error + targets option) \<times> (row4 slot list \<times> bool slot list)" where
  "anchor_target ops anchor_list valid_flag_list gt_bboxes_list img_metas target_means
       target_stds cfg gt_bboxes_ignore_list gt_labels_list label_channels sampling
       unmap_outputs =
     (let st0 = (map Levels anchor_list, map Levels valid_flag_list);
          num_imgs = length img_metas
      in
      if \<not> (length anchor_list = length valid_flag_list \<and> length valid_flag_list = num_imgs)
      then (Inl AssertionError, st0)
      else
        (case anchor_list of
           [] \<Rightarrow> (Inl IndexError, st0)
         | levels0 # _ \<Rightarrow>
            (let num_level_anchors = map length levels0 in
             case concat_levels [0..<num_imgs] st0 of
               (Some e, st) \<Rightarrow> (Inl e, st)
             | (None, (al, vl)) \<Rightarrow>
                (let gt_bboxes_ignore_list =
                       (case gt_bboxes_ignore_list of
                          None \<Rightarrow> replicate num_imgs None | Some l \<Rightarrow> l);
                     gt_labels_list =
                       (case gt_labels_list of None \<Rightarrow> replicate num_imgs None | Some l \<Rightarrow> l)
                 in
                 (ebind
                    (multi_apply
                       (\<lambda>(a, v, gt, gti, gl, meta).
                          case (a, v) of
                            (Flat flat_anchors, Flat valid_flags) \<Rightarrow>
                              anchor_target_single ops flat_anchors valid_flags gt gti gl meta
                                target_means target_stds cfg label_channels sampling
                                unmap_outputs
                          | _ \<Rightarrow> Inl (TypeError ''flat_anchors''))
                       (zip al (zip vl (zip gt_bboxes_list (zip gt_bboxes_ignore_list
                          (zip gt_labels_list img_metas))))))
                    (\<lambda>results.
                  if results = [] then Inl ValueError
                  else
                   (let all_labels = map (\<lambda>(l, lw, bt, bw, p, n). l) results;
                        all_label_weights = map (\<lambda>(l, lw, bt, bw, p, n). lw) results;
                        all_bbox_targets = map (\<lambda>(l, lw, bt, bw, p, n). bt) results;
                        all_bbox_weights = map (\<lambda>(l, lw, bt, bw, p, n). bw) results
                    in
                    if list_ex (\<lambda>labels. labels = None) all_labels then Inr None
                    else
                      (case (those all_labels, those all_label_weights,
                             those all_bbox_targets, those all_bbox_weights) of
                         (Some all_labels, Some all_label_weights, Some all_bbox_targets,
                          Some all_bbox_weights) \<Rightarrow>
                           ebind (images_to_levels all_labels num_level_anchors)
                             (\<lambda>labels_list.
                           ebind (images_to_levels all_label_weights num_level_anchors)
                             (\<lambda>label_weights_list.
                           ebind (images_to_levels all_bbox_targets num_level_anchors)
                             (\<lambda>bbox_targets_list.
                           ebind (images_to_levels all_bbox_weights num_level_anchors)
                             (\<lambda>bbox_weights_list.
                           (let num_total =
                                  fold (\<lambda>w acc. sum_list w + acc) all_label_weights 0;
                                num_total_pos =
                                  fold (\<lambda>w acc. sum_list (map fst w) + acc) all_bbox_weights 0;
                                num_total_neg = num_total - num_total_pos
                            in
                            Inr (Some (labels_list, label_weights_list, bbox_targets_list,
                                       bbox_weights_list, num_total_pos, num_total_neg)))))))
                       | _ \<Rightarrow> Inl (TypeError ''stack'')))),
                  (al, vl))))))"

text \<open>
  Reading the tensors that \<open>anchor_target_single\<close> returns. Among the anchors inside
  the border (the valid anchors), the anchor at position \<open>p\<close> of \<open>flat_anchors\<close> has
  index \<open>inside_rank inside_flags p\<close>: the number of inside anchors before it. With
  \<open>unmap_outputs\<close> the returned tensors have one entry per anchor of \<open>flat_anchors\<close>,
  without it one entry per valid anchor; \<open>valid_index\<close> gives, for a position of a
  returned tensor, the index of its anchor among the valid anchors, if it is one.
\<close>

definition inside_rank :: "bool list \<Rightarrow> nat \<Rightarrow> nat" where
  "inside_rank flags p = length (filter id (take p flags))"

definition valid_index :: "bool \<Rightarrow> bool list \<Rightarrow> nat \<Rightarrow> nat option" where
  "valid_index unmap_outputs inside_flags p =
     (if unmap_outputs
      then (if inside_flags ! p then Some (inside_rank inside_flags p) else None)
      else Some p)"

text \<open>
  Concrete parameters for evaluation. The sampler makes the first valid anchor positive,
  matched with the first ground-truth box, and the second valid anchor negative; the
  encoding of a pair of boxes is the difference of their coordinates.
\<close>

definition demo_sample :: "row4 list \<Rightarrow> row4 list \<Rightarrow> sampling_result" where
  "demo_sample anchors gt =
     \<lparr> pos_inds = (if anchors = [] then [] else [0]),
       neg_inds = (if length anchors > 1 then [1] else []),
       pos_bboxes = take 1 anchors,
       pos_gt_bboxes = take 1 gt,
       pos_assigned_gt_inds = (if anchors = [] then [] else [0]) \<rparr>"

definition demo_bbox2delta :: "row4 list \<Rightarrow> row4 list \<Rightarrow> real list \<Rightarrow> real list \<Rightarrow> row4 list" where
  "demo_bbox2delta proposals gt means stds =
     map2 (\<lambda>(px1, py1, px2, py2) (gx1, gy1, gx2, gy2). (gx1 - px1, gy1 - py1, gx2 - px2, gy2 - py2))
       proposals gt"

definition demo_ops :: "(unit, unit) bbox_ops" where
  "demo_ops =
     \<lparr> assign_and_sample = (\<lambda>anchors gt gt_ignore gt_labels cfg. ((), demo_sample anchors gt)),
       assigner_assign = (\<lambda>acfg anchors gt gt_ignore gt_labels. ()),
       pseudo_sample = (\<lambda>assign_result anchors gt. demo_sample anchors gt),
       bbox2delta = demo_bbox2delta \<rparr>"

definition demo_cfg :: "unit train_cfg" where
  "demo_cfg = \<lparr> allowed_border = 0, pos_weight = - 1, assigner = () \<rparr>"

definition demo_meta :: img_meta where
  "demo_meta = \<lparr> img_shape = (10, 10, 3) \<rparr>"

definition demo_anchors :: "row4 list" where
  "demo_anchors = [(0, 0, 4, 4), (- 5, 0, 3, 3), (5, 5, 9, 9), (2, 2, 6, 6)]"

definition demo_flags :: "bool list" where
  "demo_flags = [True, True, True, True]"

definition demo_gt :: "row4 list" where
  "demo_gt = [(1, 1, 5, 5)]"

text \<open>
  Two images with the same two levels of anchors; no anchor of the second image is valid.
\<close>

definition demo_levels :: "row4 list list" where
  "demo_levels = [[(0, 0, 4, 4), (- 5, 0, 3, 3)], [(5, 5, 9, 9), (2, 2, 6, 6)]]"

definition demo_anchor_list :: "row4 list list list" where
  "demo_anchor_list = [demo_levels, demo_levels]"

definition demo_valid_flag_list :: "bool list list list" where
  "demo_valid_flag_list = [[[True, True], [True, True]], [[False, False], [False, False]]]"

section \<open>The neck modules (mmdet/models/necks/bfp.py)\<close>

text \<open>
  The feature maps are tensors of the framework, of a type \<open>'t\<close> that is left open. The
  operations of the framework that the two \<open>forward\<close> methods call are the fields of a
  record: \<open>x.size()\<close>, \<open>F.adaptive_max_pool2d(x, output_size=s)\<close>,
  \<open>F.interpolate(x, size=s, mode='nearest')\<close>, \<open>a + b\<close> on tensors, \<open>0 + a\<close> (the
  first step of Python's \<open>sum\<close>), \<open>a / n\<close> for an integer \<open>n\<close>, and
  \<open>torch.cat(ts, dim=1)\<close>.
\<close>

record 't torch =
  size_of :: "'t \<Rightarrow> nat list"
  adaptive_max_pool2d :: "'t \<Rightarrow> nat list \<Rightarrow> 't"
  interpolate :: "'t \<Rightarrow> nat list \<Rightarrow> 't"
  add :: "'t \<Rightarrow> 't \<Rightarrow> 't"
  radd_int :: "int \<Rightarrow> 't \<Rightarrow> 't"
  div_int :: "'t \<Rightarrow> nat \<Rightarrow> 't"
  cat_dim1 :: "'t list \<Rightarrow> 't"

datatype refine_kind = Conv | NonLocal

text \<open>
  The attributes of a \<open>BFP\<close> module that \<open>forward\<close> reads. \<open>refine\<close> is the
  submodule that \<open>__init__\<close> builds (a \<open>ConvModule\<close> or a \<open>NonLocal2D\<close>, both defined
  outside the files at hand).
\<close>

record 't bfp =
  num_levels :: nat
  refine_level :: nat
  refine_type :: "refine_kind option"
  output_single_lvl :: bool
  refine :: "'t \<Rightarrow> 't"


text \<open>
  What a \<open>forward\<close> returns: a tuple or a list, whose elements are tensors or again
  lists.
\<close>

datatype 't out = OutTensor 't | OutTuple "'t out list" | OutList "'t out list"

text \<open>
  Step 1 of both methods (lines 88 to 97 and 174 to 183): the loop over the levels that
  appends the resized input to \<open>feats\<close>.
\<close>

fun gather_loop :: "'t torch \<Rightarrow> nat \<Rightarrow> 't list \<Rightarrow> nat list \<Rightarrow> nat list \<Rightarrow> 't list \<Rightarrow> 't list" where
  "gather_loop F rl inputs gather_size [] feats = feats"
| "gather_loop F rl inputs gather_size (i # rest) feats =
     (let gathered =
            (if i < rl then adaptive_max_pool2d F (inputs ! i) gather_size
             else interpolate F (inputs ! i) gather_size)
      in gather_loop F rl inputs gather_size rest (feats @ [gathered]))"

text \<open>
  Step 3 of \<open>BFP.forward\<close> (lines 105 to 112): the loop that appends
  \<open>residual + inputs[i]\<close> to \<open>outs\<close>.
\<close>

fun scatter_loop :: "'t torch \<Rightarrow> nat \<Rightarrow> 't list \<Rightarrow> 't \<Rightarrow> nat list \<Rightarrow> 't list \<Rightarrow> 't list" where
  "scatter_loop F rl inputs bsf [] outs = outs"
| "scatter_loop F rl inputs bsf (i # rest) outs =
     (let out_size = drop 2 (size_of F (inputs ! i));
          residual =
            (if i < rl then interpolate F bsf out_size
             else adaptive_max_pool2d F bsf out_size)
      in scatter_loop F rl inputs bsf rest (outs @ [add F residual (inputs ! i)]))"

text \<open>
  \<open>sum(feats) / len(feats)\<close>: Python's \<open>sum\<close> starts from the integer 0 and adds the
  elements from the left; for an empty list it is the integer 0, and the division by
  \<open>len(feats)\<close> is a division by zero.
\<close>

definition mean_of :: "'t torch \<Rightarrow> 't list \<Rightarrow> error + 't" where
  "mean_of F feats =
     (case feats of
        [] \<Rightarrow> Inl ZeroDivisionError
      | f # fs \<Rightarrow> Inr (div_int F (foldl (add F) (radd_int F 0 f) fs) (length feats)))"

text \<open>\<open>BFP.forward\<close> (lines 84 to 118).\<close>

definition BFP_forward :: "'t torch \<Rightarrow> 't bfp \<Rightarrow> 't list \<Rightarrow> error + 't out" where
  "BFP_forward F self inputs =
     (if length inputs \<noteq> num_levels self then Inl AssertionError
      else if \<not> refine_level self < length inputs then Inl IndexError
      else
        (let gather_size = drop 2 (size_of F (inputs ! refine_level self));
             feats = gather_loop F (refine_level self) inputs gather_size
                       [0..<num_levels self] []
         in
         if \<not> output_single_lvl self then
           ebind (mean_of F feats) (\<lambda>bsf.
             let bsf = (if refine_type self \<noteq> None then refine self bsf else bsf);
                 outs = scatter_loop F (refine_level self) inputs bsf [0..<num_levels self] []
             in Inr (OutTuple (map OutTensor outs)))
         else
           (let feats = cat_dim1 F feats in
            if refine_type self \<noteq> None
            then Inr (OutList [OutList [OutTensor (refine self feats)]])
            else Inr (OutList [OutTensor feats]))))"



text \<open>
  The descriptions that the properties below use. \<open>gathered\<close> is the input of level
  \<open>i\<close> resized to the spatial size of the input of the refine level; \<open>integrated\<close> is
  the average of the gathered features, refined when a refine type is set;
  \<open>scattered\<close> is a feature resized back to the spatial size of the input of level
  \<open>i\<close>.
\<close>

definition gathered :: "'t torch \<Rightarrow> 't bfp \<Rightarrow> 't list \<Rightarrow> nat \<Rightarrow> 't" where
  "gathered F self inputs i =
     (let gather_size = drop 2 (size_of F (inputs ! refine_level self)) in
      if i < refine_level self then adaptive_max_pool2d F (inputs ! i) gather_size
      else interpolate F (inputs ! i) gather_size)"

definition scattered :: "'t torch \<Rightarrow> 't bfp \<Rightarrow> 't list \<Rightarrow> 't \<Rightarrow> nat \<Rightarrow> 't" where
  "scattered F self inputs bsf i =
     (let out_size = drop 2 (size_of F (inputs ! i)) in
      if i < refine_level self then interpolate F bsf out_size
      else adaptive_max_pool2d F bsf out_size)"




text \<open>
  A concrete framework for evaluation, in which a tensor is represented by its shape and
  every operation computes the shape of its result. A context module of level \<open>i\<close>
  yields \<open>(i + 1) * 49\<close> channels, as the modules that \<open>FRCNBFP.__init__\<close> builds with
  \<open>channel_expansion = 1\<close>.
\<close>

definition shape_torch :: "nat list torch" where
  "shape_torch =
     \<lparr> size_of = (\<lambda>t. t),
       adaptive_max_pool2d = (\<lambda>t s. take 2 t @ s),
       interpolate = (\<lambda>t s. take 2 t @ s),
       add = (\<lambda>a b. b),
       radd_int = (\<lambda>k t. t),
       div_int = (\<lambda>t n. t),
       cat_dim1 = (\<lambda>ts. [hd (hd ts), sum_list (map (\<lambda>t. t ! 1) ts), hd ts ! 2, hd ts ! 3]) \<rparr>"

definition demo_bfp :: "nat list bfp" where
  "demo_bfp =
     \<lparr> num_levels = 3, refine_level = 1, refine_type = Some Conv, output_single_lvl = False,
       refine = (\<lambda>t. t) \<rparr>"


definition demo_inputs :: "nat list list" where
  "demo_inputs = [[1, 256, 16, 16], [1, 256, 8, 8], [1, 256, 4, 4]]"

section \<open>The block dataset (mmdet/datasets/custom_block.py)\<close>

text \<open>
  The environment of the dataset: the functions of \<open>os.path\<close>, the string operations
  of Python that \<open>prepare_train_img\<close> applies to the file name (\<open>str.isdigit\<close>,
  \<open>int\<close>, \<open>'%06d' %\<close>, \<open>str.replace('jpg', 'png')\<close>), the image reader and the array
  operations of the libraries, and \<open>random_scale\<close> of \<open>mmdet.datasets.utils\<close>. An
  image, a segmentation map and a stacked block of images are arrays of a type that is
  left open. \<open>random_scale\<close> draws random numbers (with \<open>np.random.randint\<close>) to
  choose the scale: its first argument here is the list of the numbers that one call
  draws, so that two calls may return two scales.
\<close>

record 'img env =
  osp_join :: "string \<Rightarrow> string \<Rightarrow> string"
  osp_dirname :: "string \<Rightarrow> string"
  osp_basename :: "string \<Rightarrow> string"
  osp_splitext :: "string \<Rightarrow> string \<times> string"
  osp_exists :: "string \<Rightarrow> bool"
  isdigit :: "string \<Rightarrow> bool"
  int_of_str :: "string \<Rightarrow> int"
  format_06d :: "int \<Rightarrow> string"
  jpg_to_png :: "string \<Rightarrow> string"
  imread :: "string \<Rightarrow> 'img"
  imread_unchanged :: "string \<Rightarrow> 'img"
  squeeze :: "'img \<Rightarrow> 'img"
  imrescale_nearest :: "'img \<Rightarrow> real \<Rightarrow> 'img"
  expand_dims :: "'img \<Rightarrow> 'img"
  np_stack :: "'img list \<Rightarrow> error + 'img"
  random_scale :: "nat list \<Rightarrow> (nat \<times> nat) list \<Rightarrow> string \<Rightarrow> nat \<times> nat"

type_synonym boxes = "real list list"

text \<open>
  An annotation, a field \<open>ann_k\<close> for the key \<open>k\<close>; the keys \<open>bboxes_ignore\<close> and
  \<open>masks\<close> may be missing.
\<close>

record 'm ann =
  ann_bboxes :: boxes
  ann_labels :: "int list"
  ann_bboxes_ignore :: "boxes option"
  ann_masks :: "'m option"

text \<open>
  An entry of \<open>img_infos\<close>. The code reads the key \<open>filename\<close>, and, for the
  segmentation map, the key \<open>file_name\<close>, which may be missing.
\<close>

record 'm img_info =
  filename :: string
  file_name :: "string option"
  width :: nat
  height :: nat
  ann :: "'m ann"

text \<open>
  The attributes of the dataset that \<open>prepare_train_img\<close> reads, with the four
  transforms (defined in \<open>mmdet.datasets.transforms\<close>). \<open>img_transform\<close> takes the
  image, the scale, the flip flag and \<open>keep_ratio\<close>, and returns the image, its shape,
  the padded shape and the scale factor.
\<close>

record ('img, 'm) dataset =
  img_prefix :: string
  img_infos :: "'m img_info list"
  block_size :: int
  block_gap :: int
  proposals :: "boxes list option"
  num_max_proposals :: nat
  with_crowd :: bool
  with_mask :: bool
  with_label :: bool
  with_seg :: bool
  seg_prefix :: string
  seg_scale_factor :: real
  skip_img_without_anno :: bool
  extra_aug :: "unit option"
  flip_ratio :: real
  img_scales :: "(nat \<times> nat) list"
  multiscale_mode :: string
  resize_keep_ratio :: bool
  img_transform ::
    "'img \<Rightarrow> nat \<times> nat \<Rightarrow> bool \<Rightarrow> bool \<Rightarrow> 'img \<times> (nat \<times> nat \<times> nat) \<times> (nat \<times> nat \<times> nat) \<times> real"
  bbox_transform :: "boxes \<Rightarrow> nat \<times> nat \<times> nat \<Rightarrow> real \<Rightarrow> bool \<Rightarrow> boxes"
  mask_transform :: "'m \<Rightarrow> nat \<times> nat \<times> nat \<Rightarrow> real \<Rightarrow> bool \<Rightarrow> 'm"
  seg_transform :: "'img \<Rightarrow> nat \<times> nat \<Rightarrow> bool \<Rightarrow> 'img"

text \<open>
  The sample that is returned: the dictionary \<open>data\<close>, a field \<open>data_k\<close> for the key
  \<open>k\<close>, optional where the key is. The wrappers \<open>DC\<close> and \<open>to_tensor\<close> change the
  representation only and are left out.
\<close>

record sample_meta =
  ori_shape :: "nat \<times> nat \<times> nat"
  meta_img_shape :: "nat \<times> nat \<times> nat"
  pad_shape :: "nat \<times> nat \<times> nat"
  scale_factor :: real
  flip :: bool

record ('img, 'm) sample =
  data_imgs :: 'img
  data_img_meta :: sample_meta
  data_gt_bboxes :: boxes
  data_proposals :: "boxes option"
  data_gt_labels :: "int list option"
  data_gt_bboxes_ignore :: "boxes option"
  data_gt_masks :: "'m option"
  data_gt_semantic_seg :: "'img option"

text \<open>
  \<open>hf_size = int((self.block_size-1)/2)\<close>: the true quotient, truncated towards zero.
\<close>

definition hf_size :: "int \<Rightarrow> int" where
  "hf_size bs = (if bs - 1 \<ge> 0 then (bs - 1) div 2 else - ((1 - bs) div 2))"

text \<open>
  The body of the loop of lines 195 to 208 for the offset \<open>i\<close>: the annotated frame
  itself at offset 0, and at any other offset the frame whose number is
  \<open>shift = i * block_gap\<close> away, or \<open>None\<close> when the number of the annotated frame is
  not known or the file does not exist.
\<close>

definition frame_name ::
  "'img env \<Rightarrow> string \<Rightarrow> string \<Rightarrow> string \<Rightarrow> int option \<Rightarrow> int \<Rightarrow> int \<Rightarrow> string option" where
  "frame_name E dname fname ext fidx gap i =
     (if i = 0 then Some (osp_join E dname (fname @ ext))
      else
        (let shift = i * gap in
         case fidx of
           Some f \<Rightarrow>
             (let fidx_other = f + shift;
                  fname_other = osp_join E dname (format_06d E fidx_other @ ext)
              in if \<not> osp_exists E fname_other then None else Some fname_other)
         | None \<Rightarrow> None))"

text \<open>The loop itself, over \<open>range(-hf_size, hf_size+1)\<close>.\<close>

definition img_name_list ::
  "'img env \<Rightarrow> string \<Rightarrow> string \<Rightarrow> string \<Rightarrow> int option \<Rightarrow> int \<Rightarrow> int \<Rightarrow> string option list" where
  "img_name_list E dname fname ext fidx hf gap =
     map (frame_name E dname fname ext fidx gap) [- hf..hf]"

text \<open>
  The two loops of lines 212 to 217, which run from the centre outwards and replace a
  missing name by the name next to it on the side of the centre. \<open>left_step\<close> and
  \<open>right_step\<close> are the bodies of the loops for the loop variable \<open>i\<close>.
\<close>

definition left_step :: "nat \<Rightarrow> nat \<Rightarrow> 'a option list \<Rightarrow> 'a option list" where
  "left_step hf i l = (if l ! (hf - 1 - i) = None then l[hf - 1 - i := l ! (hf - i)] else l)"

definition fill_left :: "'a option list \<Rightarrow> nat \<Rightarrow> 'a option list" where
  "fill_left l hf = fold (left_step hf) [0..<hf] l"

definition right_step :: "nat \<Rightarrow> nat \<Rightarrow> 'a option list \<Rightarrow> 'a option list" where
  "right_step hf i l = (if l ! (hf + 1 + i) = None then l[hf + 1 + i := l ! (hf + i)] else l)"

definition fill_right :: "'a option list \<Rightarrow> nat \<Rightarrow> 'a option list" where
  "fill_right l hf = fold (right_step hf) [0..<hf] l"

text \<open>Lines 210 to 217: the names after the missing ones have been replaced.\<close>

definition fill_names :: "'a option list \<Rightarrow> int \<Rightarrow> error + 'a option list" where
  "fill_names l hf =
     (if None \<in> set l then
        (if l ! nat hf = None then Inl AssertionError
         else Inr (fill_right (fill_left l (nat hf)) (nat hf)))
      else Inr l)"

text \<open>
  Lines 184 to 208: the file name of the annotated frame is taken apart, and the names
  of the frames of the block are built.
\<close>

definition candidates :: "'img env \<Rightarrow> ('img, 'm) dataset \<Rightarrow> 'm img_info \<Rightarrow> string option list" where
  "candidates E self info =
     (let img_name = osp_join E (img_prefix self) (filename info);
          dname = osp_dirname E img_name;
          (fname, ext) = osp_splitext E (osp_basename E img_name);
          fidx = (if isdigit E fname then Some (int_of_str E fname) else None);
          hf = hf_size (block_size self)
      in img_name_list E dname fname ext fidx hf (block_gap self))"

text \<open>Lines 184 to 217: the names of the frames of the block of an image.\<close>

definition block_names :: "'img env \<Rightarrow> ('img, 'm) dataset \<Rightarrow> 'm img_info \<Rightarrow> error + string option list" where
  "block_names E self info = fill_names (candidates E self info) (hf_size (block_size self))"

text \<open>
  For the proofs about the two loops: in the list \<open>cand\<close> of the names before the
  replacement, whose centre is position \<open>hf\<close>, position \<open>q\<close> is the nearest one to
  \<open>p\<close>, from \<open>p\<close> towards the centre, that holds a name.
\<close>

definition nearest_available :: "'a option list \<Rightarrow> nat \<Rightarrow> nat \<Rightarrow> nat \<Rightarrow> bool" where
  "nearest_available cand hf p q \<longleftrightarrow>
     cand ! q \<noteq> None
     \<and> (if p \<le> hf then p \<le> q \<and> q \<le> hf \<and> (\<forall>r\<in>set [p..<q]. cand ! r = None)
        else hf \<le> q \<and> q \<le> p \<and> (\<forall>r\<in>set [Suc q..<Suc p]. cand ! r = None))"

text \<open>
  For the properties: the block as the specification describes it. \<open>block_frame\<close> is
  the frame at the offset \<open>i\<close> from the annotated frame: the annotated file itself at
  offset 0, and otherwise the file of the same directory and extension whose six-digit
  number is the number of the annotated file plus \<open>i\<close> times \<open>block_gap\<close>, provided
  that the name of the annotated file is a number and that this file exists.
  \<open>nearest_frame\<close> says that \<open>j\<close> is the nearest offset to \<open>i\<close>, from \<open>i\<close> towards
  the annotated frame, at which there is such a frame.
\<close>

definition block_frame ::
  "'img env \<Rightarrow> ('img, 'm) dataset \<Rightarrow> 'm img_info \<Rightarrow> int \<Rightarrow> string option" where
  "block_frame E self info i =
     (let path = osp_join E (img_prefix self) (filename info);
          dname = osp_dirname E path;
          fname = fst (osp_splitext E (osp_basename E path));
          ext = snd (osp_splitext E (osp_basename E path));
          other = osp_join E dname (format_06d E (int_of_str E fname + i * block_gap self) @ ext)
      in if i = 0 then Some (osp_join E dname (fname @ ext))
         else if isdigit E fname \<and> osp_exists E other then Some other
         else None)"

definition nearest_frame ::
  "'img env \<Rightarrow> ('img, 'm) dataset \<Rightarrow> 'm img_info \<Rightarrow> int \<Rightarrow> int \<Rightarrow> bool" where
  "nearest_frame E self info i j \<longleftrightarrow>
     block_frame E self info j \<noteq> None
     \<and> (if i \<le> 0
        then i \<le> j \<and> j \<le> 0 \<and> (\<forall>r\<in>set [i..j - 1]. block_frame E self info r = None)
        else 0 \<le> j \<and> j \<le> i \<and> (\<forall>r\<in>set [j + 1..i]. block_frame E self info r = None))"

text \<open>
  Lines 219 to 222: every name is read. \<open>mmcv.imread\<close> of \<open>None\<close> is a TypeError.
\<close>

fun read_all :: "'img env \<Rightarrow> string option list \<Rightarrow> error + 'img list" where
  "read_all E [] = Inr []"
| "read_all E (None # rest) = Inl (TypeError ''img_or_path'')"
| "read_all E (Some name # rest) = ebind (read_all E rest) (\<lambda>ims. Inr (imread E name # ims))"

text \<open>
  Lines 264 to 268: every frame goes through \<open>img_transform\<close> with the one scale and
  the one flip flag; the shapes and the scale factor that remain are those of the last
  frame.
\<close>

definition transform_all ::
  "('img, 'm) dataset \<Rightarrow> nat \<times> nat \<Rightarrow> bool \<Rightarrow> 'img list
     \<Rightarrow> ('img \<times> (nat \<times> nat \<times> nat) \<times> (nat \<times> nat \<times> nat) \<times> real) list" where
  "transform_all self img_scale flp img_list =
     map (\<lambda>im. img_transform self im img_scale flp (resize_keep_ratio self)) img_list"

text \<open>
  \<open>prepare_train_img\<close> (lines 183 to 316) is written in three parts. The first is
  the loading of the proposals, lines 225 to 240: \<open>None\<close> when the dataset has none,
  otherwise the boxes and the scores of the image, if it has scores. An image with no
  proposal ends the function, which then returns \<open>None\<close>: that is the outer \<open>None\<close>
  here.
\<close>

definition load_proposals ::
  "('img, 'm) dataset \<Rightarrow> nat \<Rightarrow> error + (boxes \<times> boxes option) option option" where
  "load_proposals self idx =
     (case proposals self of
        None \<Rightarrow> Inr (Some None)
      | Some ps \<Rightarrow>
          if \<not> idx < length ps then Inl IndexError
          else
            (let props = take (num_max_proposals self) (ps ! idx) in
             if length props = 0 then Inr None
             else if \<not> (length (props ! 0) = 4 \<or> length (props ! 0) = 5)
               then Inl AssertionError
             else if length (props ! 0) = 5
               then Inr (Some (Some (map (take 4) props, Some (map (\<lambda>r. [r ! 4]) props))))
             else Inr (Some (Some (props, None)))))"

text \<open>
  The second part is lines 260 to 316: the flip flag and the scale are drawn, once each
  and before the loop over the frames, the frames are transformed and stacked, the
  annotations are transformed with the shapes and the scale factor of the last frame, and
  the sample is put together. \<open>u\<close> is the number that \<open>np.random.rand()\<close> draws in
  line 261, and \<open>v\<close> holds the numbers that the one call of \<open>random_scale\<close> in line
  263 draws; \<open>shp\<close>, \<open>pshp\<close> and \<open>sf\<close> stand for the variables \<open>img_shape\<close>,
  \<open>pad_shape\<close> and \<open>scale_factor\<close>.
\<close>

definition apply_transforms ::
  "'img env \<Rightarrow> ('img, 'm) dataset \<Rightarrow> real \<Rightarrow> nat list \<Rightarrow> 'm img_info \<Rightarrow> 'img list
     \<Rightarrow> (boxes \<times> boxes option) option \<Rightarrow> boxes option \<Rightarrow> error + ('img, 'm) sample option" where
  "apply_transforms E self u v info img_list props gt_bboxes_ignore =
     (let a = ann info;
          gt_bboxes = ann_bboxes a;
          gt_labels = ann_labels a;
          flp = (if u < flip_ratio self then True else False);
          img_scale = random_scale E v (img_scales self) (multiscale_mode self);
          transformed = transform_all self img_scale flp img_list
      in
      ebind (np_stack E (map fst transformed)) (\<lambda>img.
      case last transformed of (_, shp, pshp, sf) \<Rightarrow>
      ebind
        (if with_seg self then
           (case file_name info of
              None \<Rightarrow> Inl KeyError
            | Some fn \<Rightarrow>
                (let gt_seg = imread_unchanged E (osp_join E (seg_prefix self) (jpg_to_png E fn));
                     gt_seg = seg_transform self (squeeze E gt_seg) img_scale flp;
                     gt_seg = imrescale_nearest E gt_seg (seg_scale_factor self);
                     gt_seg = expand_dims E gt_seg
                 in Inr (Some gt_seg)))
         else Inr None) (\<lambda>gt_seg.
      let props =
            (case props of
               None \<Rightarrow> None
             | Some (pr, scores) \<Rightarrow>
                 (let pr = bbox_transform self pr shp sf flp in
                  case scores of
                    Some sc \<Rightarrow> Some (map2 (@) pr sc)
                  | None \<Rightarrow> Some pr));
          gt_bboxes = bbox_transform self gt_bboxes shp sf flp;
          gt_bboxes_ignore =
            map_option (\<lambda>b. bbox_transform self b shp sf flp) gt_bboxes_ignore
      in
      ebind
        (if with_mask self then
           (case ann_masks a of
              None \<Rightarrow> Inl KeyError
            | Some m \<Rightarrow> Inr (Some (mask_transform self m pshp sf flp)))
         else Inr None) (\<lambda>gt_masks.
      Inr (Some
        \<lparr> data_imgs = img,
          data_img_meta =
            \<lparr> ori_shape = (height info, width info, 3), meta_img_shape = shp,
              pad_shape = pshp, scale_factor = sf, flip = flp \<rparr>,
          data_gt_bboxes = gt_bboxes,
          data_proposals = props,
          data_gt_labels = (if with_label self then Some gt_labels else None),
          data_gt_bboxes_ignore = gt_bboxes_ignore,
          data_gt_masks = gt_masks,
          data_gt_semantic_seg = gt_seg \<rparr>)))))"

text \<open>
  The function itself, with the two random draws \<open>u\<close> and \<open>v\<close> of its second part.
  The result is the sample, \<open>None\<close>, or the exception.
\<close>

definition prepare_train_img ::
  "'img env \<Rightarrow> ('img, 'm) dataset \<Rightarrow> real \<Rightarrow> nat list \<Rightarrow> nat
     \<Rightarrow> error + ('img, 'm) sample option" where
  "prepare_train_img E self u v idx =
     (if \<not> idx < length (img_infos self) then Inl IndexError
      else
      (let info = img_infos self ! idx in
       ebind (block_names E self info) (\<lambda>names.
       ebind (read_all E names) (\<lambda>img_list.
       ebind (load_proposals self idx) (\<lambda>loaded.
       case loaded of
         None \<Rightarrow> Inr None
       | Some props \<Rightarrow>
           ebind
             (if with_crowd self then
                (case ann_bboxes_ignore (ann info) of
                   None \<Rightarrow> Inl KeyError
                 | Some b \<Rightarrow> Inr (Some b))
              else Inr None) (\<lambda>gt_bboxes_ignore.
           if length (ann_bboxes (ann info)) = 0 \<and> skip_img_without_anno self then Inr None
           else if extra_aug self \<noteq> None then Inl ValueError
           else apply_transforms E self u v info img_list props gt_bboxes_ignore))))))"




text \<open>
  A concrete dataset for evaluation. An image is represented by the names of the files
  it was read from, each with the scale and the flip flag of the transform it went
  through (\<open>(0, 0)\<close> and \<open>False\<close> before any transform), so that a stacked block
  shows its frames and how each was transformed. The directory holds the frames 5, 10
  and 20; the annotated frame is frame 10. \<open>random_scale\<close> takes the scale at the
  position that it draws, as \<open>random_scale\<close> of \<open>mmdet.datasets.utils\<close> does in the
  mode \<open>value\<close>.
\<close>

type_synonym demo_img = "(string \<times> (nat \<times> nat) \<times> bool) list"

definition demo_isdigit :: "string \<Rightarrow> bool" where
  "demo_isdigit s \<longleftrightarrow> s \<noteq> [] \<and> list_all (\<lambda>c. c \<in> set ''0123456789'') s"

definition demo_int :: "string \<Rightarrow> int" where
  "demo_int s = foldl (\<lambda>a c. 10 * a + (of_char c - 48)) 0 s"

definition demo_format :: "int \<Rightarrow> string" where
  "demo_format i =
     (if 0 \<le> i \<and> i < 1000000
      then map (\<lambda>k. ''0123456789'' ! nat (i div 10 ^ k mod 10)) [5, 4, 3, 2, 1, 0]
      else ''-'')"

definition demo_env :: "demo_img env" where
  "demo_env =
     \<lparr> osp_join = (\<lambda>d f. d @ ''/'' @ f),
       osp_dirname = (\<lambda>p. takeWhile (\<lambda>c. c \<noteq> CHR ''/'') p),
       osp_basename = (\<lambda>p. tl (dropWhile (\<lambda>c. c \<noteq> CHR ''/'') p)),
       osp_splitext = (\<lambda>p. (takeWhile (\<lambda>c. c \<noteq> CHR ''.'') p, dropWhile (\<lambda>c. c \<noteq> CHR ''.'') p)),
       osp_exists = (\<lambda>p. p \<in> set [''d/000005.jpg'', ''d/000010.jpg'', ''d/000020.jpg'']),
       isdigit = demo_isdigit,
       int_of_str = demo_int,
       format_06d = demo_format,
       jpg_to_png = (\<lambda>s. s),
       imread = (\<lambda>p. [(p, (0, 0), False)]),
       imread_unchanged = (\<lambda>p. [(p, (0, 0), False)]),
       squeeze = (\<lambda>im. im),
       imrescale_nearest = (\<lambda>im f. im),
       expand_dims = (\<lambda>im. im),
       np_stack = (\<lambda>ims. if ims = [] then Inl ValueError else Inr (concat ims)),
       random_scale = (\<lambda>v scales mode. scales ! (hd v mod length scales)) \<rparr>"

definition demo_info :: "unit img_info" where
  "demo_info =
     \<lparr> filename = ''000010.jpg'', file_name = None, width = 10, height = 10,
       ann = \<lparr> ann_bboxes = [[1, 1, 5, 5]], ann_labels = [1], ann_bboxes_ignore = Some [],
               ann_masks = None \<rparr> \<rparr>"

definition demo_dataset :: "(demo_img, unit) dataset" where
  "demo_dataset =
     \<lparr> img_prefix = ''d'', img_infos = [demo_info], block_size = 5, block_gap = 5,
       proposals = None, num_max_proposals = 1000, with_crowd = True, with_mask = False,
       with_label = True, with_seg = False, seg_prefix = ''seg'', seg_scale_factor = 1,
       skip_img_without_anno = True, extra_aug = None, flip_ratio = 1 / 2,
       img_scales = [(10, 10), (20, 20)], multiscale_mode = ''value'',
       resize_keep_ratio = True,
       img_transform =
         (\<lambda>im scale flp keep. (map (\<lambda>(p, s, f). (p, scale, flp)) im, (10, 10, 3), (10, 10, 3), 1)),
       bbox_transform = (\<lambda>b shp sf flp. b),
       mask_transform = (\<lambda>m shp sf flp. m),
       seg_transform = (\<lambda>im scale flp. im) \<rparr>"

text \<open>The same dataset with an even block size.\<close>

definition demo_dataset_even :: "(demo_img, unit) dataset" where
  "demo_dataset_even = demo_dataset\<lparr>block_size := 4\<rparr>"



section \<open>Properties of the detector base class\<close>

text \<open>
  C2. For every detector, image batch, metadata list and keyword arguments, \<open>forward\<close>
  with \<open>return_loss=True\<close> returns exactly the result of \<open>forward_train(img, img_meta,
  **kwargs)\<close>, and with \<open>return_loss=False\<close> exactly the result of
  \<open>forward_test(img, img_meta, **kwargs)\<close>. The image is the one the body receives:
  the hypothesis says that the fp16 decorator hands it on unchanged.
\<close>

theorem forward_dispatch:
  assumes "auto_fp16 img = img"
  shows "forward auto_fp16 size0 self img img_meta True kwargs
           = forward_train self img img_meta kwargs
       \<and> forward auto_fp16 size0 self img img_meta False kwargs
           = forward_test size0 self img img_meta kwargs"
  using assms by (simp add: forward_def)

theorem forward_dispatch_witness:
  "fp16_off (PyList [1]) = PyList [1]
   \<and> forward fp16_off batch_of demo_detector (PyList [1]) (PyList [()]) True () = Inr ViaTrain
   \<and> forward fp16_off batch_of demo_detector (PyList [1]) (PyList [()]) False ()
       = Inr (ViaSimple 1)"
proof -
  have h: "fp16_off (PyList [1]) = PyList [1]"
    by (simp add: fp16_off_def)
  show ?thesis
    using h forward_dispatch [of fp16_off "PyList [1]" batch_of demo_detector "PyList [()]" "()"]
    by (simp add: forward_test_def demo_detector_def batch_of_def)
qed

text \<open>
  C7, as the claim states it, fails: with one augmentation whose tensor holds a batch of
  two images, both arguments are lists of the same length, and \<open>forward_test\<close> still
  does not return the result of \<open>simple_test\<close>; the assertion
  \<open>imgs_per_gpu == 1\<close> fails first.
\<close>

theorem forward_test_batch_counterexample:
  "forward_test batch_of demo_detector (PyList [2]) (PyList [()]) () = Inl AssertionError
   \<and> simple_test demo_detector 2 () () = Inr (ViaSimple 2)"
  by (simp add: forward_test_def demo_detector_def batch_of_def)

text \<open>
  C7, amended. \<open>forward_test\<close> raises a TypeError whenever \<open>imgs\<close> or \<open>img_metas\<close>
  is not a list (\<open>imgs\<close> is tested first), raises a ValueError whenever the two lists
  have different lengths, and otherwise, for lists that are not empty: it raises an
  AssertionError unless the first image tensor has batch size 1; with batch size 1 it
  returns \<open>simple_test(imgs[0], img_metas[0], **kwargs)\<close> when exactly one augmentation
  is given and \<open>aug_test(imgs, img_metas, **kwargs)\<close> when more than one is given.
\<close>

theorem forward_test_contract:
  "forward_test size0 self (NonList x) img_metas kwargs = Inl (TypeError ''imgs'')
   \<and> forward_test size0 self (PyList il) (NonList y) kwargs = Inl (TypeError ''img_metas'')
   \<and> (length il \<noteq> length ml \<longrightarrow>
        forward_test size0 self (PyList il) (PyList ml) kwargs = Inl ValueError)
   \<and> (length il = length ml \<and> il \<noteq> [] \<and> size0 (il ! 0) \<noteq> 1 \<longrightarrow>
        forward_test size0 self (PyList il) (PyList ml) kwargs = Inl AssertionError)
   \<and> (length il = length ml \<and> length il = 1 \<and> size0 (il ! 0) = 1 \<longrightarrow>
        forward_test size0 self (PyList il) (PyList ml) kwargs
          = simple_test self (il ! 0) (ml ! 0) kwargs)
   \<and> (length il = length ml \<and> 1 < length il \<and> size0 (il ! 0) = 1 \<longrightarrow>
        forward_test size0 self (PyList il) (PyList ml) kwargs = aug_test self il ml kwargs)"
  by (cases il; cases ml) (auto simp: forward_test_def)

theorem forward_test_contract_witness:
  "forward_test batch_of demo_detector (NonList 1) (PyList [()]) () = Inl (TypeError ''imgs'')
   \<and> forward_test batch_of demo_detector (PyList [1]) (NonList ()) ()
       = Inl (TypeError ''img_metas'')
   \<and> forward_test batch_of demo_detector (PyList [1]) (PyList [(), ()]) () = Inl ValueError
   \<and> forward_test batch_of demo_detector (PyList [3]) (PyList [()]) () = Inl AssertionError
   \<and> forward_test batch_of demo_detector (PyList [1]) (PyList [()]) () = Inr (ViaSimple 1)
   \<and> forward_test batch_of demo_detector (PyList [1, 1]) (PyList [(), ()]) ()
       = Inr (ViaAug 2)"
  using forward_test_contract [of batch_of demo_detector 1 "PyList [()]" "()" "[1]" "()" "[(), ()]"]
    forward_test_contract [of batch_of demo_detector 1 "PyList [()]" "()" "[3]" "()" "[()]"]
    forward_test_contract [of batch_of demo_detector 1 "PyList [()]" "()" "[1]" "()" "[()]"]
    forward_test_contract [of batch_of demo_detector 1 "PyList [()]" "()" "[1, 1]" "()" "[(), ()]"]
  by (simp add: demo_detector_def batch_of_def)

section \<open>Lemmas about the tensor primitives\<close>

lemma length_fold_update: "length (fold (\<lambda>i acc. acc[i := f i]) inds xs) = length xs"
  by (induction inds arbitrary: xs) auto

lemma nth_fold_update:
  "j < length xs \<Longrightarrow>
   fold (\<lambda>i acc. acc[i := f i]) inds xs ! j = (if j \<in> set inds then f j else xs ! j)"
  by (induction inds arbitrary: xs) (auto simp: nth_list_update)

lemma length_fold_zip_update:
  "length (fold (\<lambda>(i, v) acc. acc[i := v]) ps xs) = length xs"
  by (induction ps arbitrary: xs) auto

lemma nth_fold_zip_update_other:
  "j \<notin> set inds \<Longrightarrow> fold (\<lambda>(i, v) acc. acc[i := v]) (zip inds vs) xs ! j = xs ! j"
proof (induction inds arbitrary: vs xs)
  case Nil then show ?case by simp
next
  case (Cons i inds)
  then show ?case by (cases vs) auto
qed

lemma nth_fold_zip_update_hit:
  "distinct inds \<Longrightarrow> length vs = length inds \<Longrightarrow> \<forall>i\<in>set inds. i < length xs \<Longrightarrow>
   k < length inds \<Longrightarrow> fold (\<lambda>(i, v) acc. acc[i := v]) (zip inds vs) xs ! (inds ! k) = vs ! k"
proof (induction inds arbitrary: vs xs k)
  case Nil then show ?case by simp
next
  case (Cons i inds)
  then obtain v vs' where vs: "vs = v # vs'" by (cases vs) auto
  show ?case
  proof (cases k)
    case 0
    with Cons vs show ?thesis by (simp add: nth_fold_zip_update_other)
  next
    case (Suc k')
    with Cons vs show ?thesis by simp
  qed
qed

lemma length_mask_put: "length (mask_put ret inds d) = length ret"
  by (induction ret inds d rule: mask_put.induct) auto

lemma nth_mask_put:
  "length ret = length inds \<Longrightarrow> length d = length (filter id inds) \<Longrightarrow> p < length inds \<Longrightarrow>
   mask_put ret inds d ! p = (if inds ! p then d ! inside_rank inds p else ret ! p)"
proof (induction ret inds d arbitrary: p rule: mask_put.induct)
  case (1 r rs ms d ds)
  then show ?case by (cases p) (auto simp: inside_rank_def)
next
  case (2 r rs ms ds)
  then show ?case by (cases p) (auto simp: inside_rank_def)
qed auto

lemma sum_list_mask_put:
  fixes d :: "real list"
  shows "length ret = length inds \<Longrightarrow> length d = length (filter id inds) \<Longrightarrow> set ret \<subseteq> {0} \<Longrightarrow>
   sum_list (mask_put ret inds d) = sum_list d"
proof (induction ret inds d rule: mask_put.induct)
  case (1 r rs ms d ds)
  then show ?case by auto
next
  case (2 r rs ms ds)
  then show ?case by auto
qed auto

lemma sum_list_indicator:
  "sum_list (map (\<lambda>j. if j \<in> S then (1::real) else 0) [0..<n]) = real (card (S \<inter> {0..<n}))"
proof -
  have "sum_list (map (\<lambda>j. if j \<in> S then (1::real) else 0) [0..<n])
        = (\<Sum>j\<in>{0..<n}. if j \<in> S then 1 else 0)"
    by (simp add: sum_list_distinct_conv_sum_set)
  also have "\<dots> = real (card ({0..<n} \<inter> S))"
    by (simp add: sum.If_cases)
  finally show ?thesis by (simp add: Int_commute)
qed

lemma fold_fill_eq_map:
  "fold (\<lambda>i acc. acc[i := c]) inds xs
     = map (\<lambda>j. if j \<in> set inds then c else xs ! j) [0..<length xs]"
  by (rule nth_equalityI) (simp_all add: length_fold_update nth_fold_update)

lemma label_weights_eq_map:
  "fold (\<lambda>i acc. acc[i := 1]) neg (fold (\<lambda>i acc. acc[i := 1]) pos (replicate n (0::real)))
     = map (\<lambda>j. if j \<in> set pos \<union> set neg then 1 else 0) [0..<n]"
  by (rule nth_equalityI) (auto simp: length_fold_update nth_fold_update)

lemma sum_label_weights:
  assumes "\<forall>i\<in>set pos. i < n" "\<forall>i\<in>set neg. i < n"
  shows "sum_list (fold (\<lambda>i acc. acc[i := 1]) neg
            (fold (\<lambda>i acc. acc[i := 1]) pos (replicate n (0::real))))
         = real (card (set pos \<union> set neg))"
proof -
  have "(set pos \<union> set neg) \<inter> {0..<n} = set pos \<union> set neg"
    using assms by auto
  moreover have "sum_list (fold (\<lambda>i acc. acc[i := 1]) neg
            (fold (\<lambda>i acc. acc[i := 1]) pos (replicate n (0::real))))
         = real (card ((set pos \<union> set neg) \<inter> {0..<n}))"
    by (simp only: label_weights_eq_map sum_list_indicator)
  ultimately show ?thesis by simp
qed

lemma card_union_lengths:
  "card (set pos \<union> set neg) = length pos + length neg
     \<longleftrightarrow> distinct pos \<and> distinct neg \<and> set pos \<inter> set neg = {}"
proof
  assume eq: "card (set pos \<union> set neg) = length pos + length neg"
  have a: "card (set pos \<union> set neg) \<le> card (set pos) + card (set neg)"
    by (rule card_Un_le)
  have b: "card (set pos) \<le> length pos" "card (set neg) \<le> length neg"
    by (rule card_length)+
  from eq a b have c: "card (set pos) = length pos" "card (set neg) = length neg"
    by linarith+
  have "card (set pos) + card (set neg) = card (set pos \<union> set neg) + card (set pos \<inter> set neg)"
    by (rule card_Un_Int) simp_all
  with eq c have "card (set pos \<inter> set neg) = 0" by simp
  then have "set pos \<inter> set neg = {}" by simp
  with c show "distinct pos \<and> distinct neg \<and> set pos \<inter> set neg = {}"
    by (simp add: card_distinct)
next
  assume "distinct pos \<and> distinct neg \<and> set pos \<inter> set neg = {}"
  then show "card (set pos \<union> set neg) = length pos + length neg"
    by (simp add: card_Un_disjoint distinct_card)
qed

lemma ebind_Inr_iff: "ebind m f = Inr r \<longleftrightarrow> (\<exists>a. m = Inr a \<and> f a = Inr r)"
  by (cases m) auto

lemma broadcast_to_same: "length vs = k \<Longrightarrow> broadcast_to k vs = Inr vs"
  by (simp add: broadcast_to_def)

lemma unmap_ok:
  "length inds = count \<Longrightarrow> length data = length (filter id inds) \<Longrightarrow>
   unmap data count inds fill = Inr (mask_put (replicate count fill) inds data)"
  by (simp add: unmap_def broadcast_to_same)

lemma length_mask_select:
  "mask_select xs m = Inr ys \<Longrightarrow> length m = length xs \<and> length ys = length (filter id m)"
proof -
  have "length m = length xs \<Longrightarrow> length (filter snd (zip xs m)) = length (filter id m)"
    by (induction xs m rule: list_induct2') auto
  then show "mask_select xs m = Inr ys \<Longrightarrow> ?thesis"
    by (auto simp: mask_select_def split: if_splits)
qed

lemma bool_and_same_length:
  "length xs = length ys \<Longrightarrow> bool_and xs ys = Inr (map2 (\<and>) xs ys)"
  by (simp add: bool_and_def)

lemma length_anchor_inside_flags:
  assumes "anchor_inside_flags flat_anchors valid_flags shp border = Inr inside_flags"
    and "length valid_flags = length flat_anchors"
  shows "length inside_flags = length flat_anchors"
  using assms
  by (cases shp)
     (auto simp: anchor_inside_flags_def bool_and_same_length split: if_splits)

lemma index_fill_ok:
  "\<forall>i\<in>set inds. i < length xs \<Longrightarrow>
   index_fill xs inds c = Inr (fold (\<lambda>i acc. acc[i := c]) inds xs)"
  by (simp add: index_fill_def list_all_iff)

lemma index_put_ok:
  "\<forall>i\<in>set inds. i < length xs \<Longrightarrow> length vals = length inds \<Longrightarrow>
   index_put xs inds vals = Inr (fold (\<lambda>(i, v) acc. acc[i := v]) (zip inds vals) xs)"
  by (simp add: index_put_def list_all_iff broadcast_to_same)

lemma index_select_ok:
  "\<forall>i\<in>set inds. i < length xs \<Longrightarrow> index_select xs inds = Inr (map ((!) xs) inds)"
  by (simp add: index_select_def list_all_iff)

lemma eassert_True: "b \<Longrightarrow> eassert b = Inr ()"
  by (simp add: eassert_def)

lemma sum_list_mask_put_zeros:
  fixes d :: "real list"
  shows "length inds = count \<Longrightarrow> length d = length (filter id inds) \<Longrightarrow>
   sum_list (mask_put (replicate count 0) inds d) = sum_list d"
  by (rule sum_list_mask_put) auto

lemma assign_positives_ok:
  assumes "\<forall>i\<in>set (pos_inds sr). i < n"
    and "length bt = n" "length bw = n" "length l = n" "length lw = n"
    and "length (bbox2delta ops (pos_bboxes sr) (pos_gt_bboxes sr) target_means target_stds)
           = length (pos_inds sr)"
    and "case gt_labels of None \<Rightarrow> True
         | Some gl \<Rightarrow> length (pos_assigned_gt_inds sr) = length (pos_inds sr)
              \<and> (\<forall>i \<in> set (pos_assigned_gt_inds sr). i < length gl)"
    and "pos_weight cfg \<le> 0"
  shows "assign_positives ops cfg sr gt_labels target_means target_stds (bt, bw, l, lw)
         = Inr (fold (\<lambda>(i, v) acc. acc[i := v])
                  (zip (pos_inds sr)
                     (bbox2delta ops (pos_bboxes sr) (pos_gt_bboxes sr) target_means target_stds))
                  bt,
                fold (\<lambda>i acc. acc[i := one_row]) (pos_inds sr) bw,
                (case gt_labels of
                   None \<Rightarrow> fold (\<lambda>i acc. acc[i := 1]) (pos_inds sr) l
                 | Some gl \<Rightarrow>
                     fold (\<lambda>(i, v) acc. acc[i := v])
                       (zip (pos_inds sr) (map ((!) gl) (pos_assigned_gt_inds sr))) l),
                fold (\<lambda>i acc. acc[i := 1]) (pos_inds sr) lw)"
  using assms
  by (cases gt_labels)
     (simp_all add: assign_positives_def Let_def index_fill_ok index_put_ok index_select_ok
        eassert_True)

lemma unmap_all_ok:
  assumes "length inds = count"
    and "length l = length (filter id inds)" "length lw = length (filter id inds)"
    and "length bt = length (filter id inds)" "length bw = length (filter id inds)"
  shows "unmap_all count inds (l, lw, bt, bw)
         = Inr (mask_put (replicate count 0) inds l, mask_put (replicate count 0) inds lw,
                mask_put (replicate count zero_row) inds bt,
                mask_put (replicate count zero_row) inds bw)"
  using assms by (simp add: unmap_all_def unmap_ok)

lemma inside_rank_Cons_Suc:
  "inside_rank (b # bs) (Suc p) = (if b then 1 else 0) + inside_rank bs p"
  by (simp add: inside_rank_def)

lemma ex_inside_rank:
  "j < length (filter id flags) \<Longrightarrow> \<exists>p<length flags. flags ! p \<and> inside_rank flags p = j"
proof (induction flags arbitrary: j)
  case Nil
  then show ?case by simp
next
  case (Cons b bs)
  show ?case
  proof (cases "b \<and> j = 0")
    case True
    then have "0 < length (b # bs) \<and> (b # bs) ! 0 \<and> inside_rank (b # bs) 0 = j"
      by (simp add: inside_rank_def)
    then show ?thesis by blast
  next
    case False
    define j' where "j' = (if b then j - 1 else j)"
    from False Cons.prems have "j' < length (filter id bs)"
      by (auto simp: j'_def id_def)
    from Cons.IH [OF this] obtain p where p: "p < length bs" "bs ! p" "inside_rank bs p = j'"
      by blast
    from False p have "Suc p < length (b # bs) \<and> (b # bs) ! Suc p
        \<and> inside_rank (b # bs) (Suc p) = j"
      by (auto simp: inside_rank_Cons_Suc j'_def)
    then show ?thesis by blast
  qed
qed

lemma inside_rank_less:
  "p < length flags \<Longrightarrow> flags ! p \<Longrightarrow> inside_rank flags p < length (filter id flags)"
proof (induction flags arbitrary: p)
  case Nil
  then show ?case by simp
next
  case (Cons b bs)
  then show ?case
    by (cases p) (auto simp: inside_rank_Cons_Suc inside_rank_def)
qed

lemma index_fill_Inr:
  "index_fill xs inds c = Inr ys \<Longrightarrow>
   (\<forall>i\<in>set inds. i < length xs) \<and> ys = fold (\<lambda>i acc. acc[i := c]) inds xs"
  by (auto simp: index_fill_def list_all_iff split: if_splits)

lemma index_put_Inr:
  "index_put xs inds vals = Inr ys \<Longrightarrow> length vals = length inds \<Longrightarrow>
   (\<forall>i\<in>set inds. i < length xs) \<and> ys = fold (\<lambda>(i, v) acc. acc[i := v]) (zip inds vals) xs"
  by (auto simp: index_put_def list_all_iff broadcast_to_same split: if_splits)

lemma assign_positives_Inr:
  assumes "assign_positives ops cfg sr gt_labels target_means target_stds (bt, bw, l, lw)
           = Inr (bt', bw', l', lw')"
    and "length (bbox2delta ops (pos_bboxes sr) (pos_gt_bboxes sr) target_means target_stds)
           = length (pos_inds sr)"
  shows "(\<forall>i\<in>set (pos_inds sr). i < length lw)
       \<and> (\<forall>i\<in>set (pos_inds sr). i < length bt)
       \<and> (\<forall>i\<in>set (pos_inds sr). i < length bw)
       \<and> bt' = fold (\<lambda>(i, v) acc. acc[i := v])
                  (zip (pos_inds sr)
                     (bbox2delta ops (pos_bboxes sr) (pos_gt_bboxes sr) target_means target_stds))
                  bt
       \<and> bw' = fold (\<lambda>i acc. acc[i := one_row]) (pos_inds sr) bw
       \<and> lw' = fold (\<lambda>i acc. acc[i := 1]) (pos_inds sr) lw"
  using assms
  by (auto simp: assign_positives_def Let_def ebind_Inr_iff dest!: index_fill_Inr index_put_Inr)

lemma unmap_Inr:
  "unmap data count inds fill = Inr r \<Longrightarrow> length data = length (filter id inds) \<Longrightarrow>
   length inds = count \<and> r = mask_put (replicate count fill) inds data"
  by (auto simp: unmap_def Let_def broadcast_to_same split: if_splits)

lemma unmap_all_Inr:
  assumes "unmap_all count inds (l, lw, bt, bw) = Inr (l', lw', bt', bw')"
    and "length l = length (filter id inds)" "length lw = length (filter id inds)"
    and "length bt = length (filter id inds)" "length bw = length (filter id inds)"
  shows "length inds = count
       \<and> l' = mask_put (replicate count 0) inds l
       \<and> lw' = mask_put (replicate count 0) inds lw
       \<and> bt' = mask_put (replicate count zero_row) inds bt
       \<and> bw' = mask_put (replicate count zero_row) inds bw"
  using assms
  by (auto simp: unmap_all_def ebind_Inr_iff dest!: unmap_Inr)

lemma index_put_length:
  "index_put xs inds vals = Inr ys \<Longrightarrow> length ys = length xs"
  by (auto simp: index_put_def ebind_Inr_iff length_fold_zip_update split: if_splits)

lemma assign_positives_length_labels:
  assumes "assign_positives ops cfg sr gt_labels target_means target_stds (bt, bw, l, lw)
           = Inr (bt', bw', l', lw')"
  shows "length l' = length l"
  using assms
  by (cases gt_labels)
     (auto simp: assign_positives_def Let_def ebind_Inr_iff length_fold_update
        dest!: index_fill_Inr dest: index_put_length)

lemma anchor_target_single_SomeD:
  fixes ops :: "('a, 'r) bbox_ops"
  assumes shape: "img_shape meta = (img_h, img_w, c)"
    and inside: "anchor_inside_flags flat_anchors valid_flags (img_h, img_w) (allowed_border cfg)
                   = Inr inside_flags"
    and any: "list_ex id inside_flags"
    and sel: "mask_select flat_anchors inside_flags = Inr anchors"
    and gt: "gt \<noteq> []"
    and sr: "sr = sample_anchors ops cfg sampling anchors gt gt_bboxes_ignore gt_labels"
    and ret: "anchor_target_single ops flat_anchors valid_flags (Some gt) gt_bboxes_ignore gt_labels
             meta target_means target_stds cfg label_channels sampling unmap_outputs
           = Inr (Some labels, Some label_weights, Some bbox_targets, Some bbox_weights,
                  Some pos, Some neg)"
  shows "pos = pos_inds sr \<and> neg = neg_inds sr
     \<and> sum_list label_weights = real (length pos + length neg)
     \<and> (\<exists>bt bw l lw lw'.
          (if pos = [] then
             (bt, bw, l, lw)
               = (replicate (length anchors) zero_row, replicate (length anchors) zero_row,
                  replicate (length anchors) 0, replicate (length anchors) 0)
           else
             assign_positives ops cfg sr gt_labels target_means target_stds
               (replicate (length anchors) zero_row, replicate (length anchors) zero_row,
                replicate (length anchors) 0, replicate (length anchors) 0)
              = Inr (bt, bw, l, lw))
          \<and> (if neg = [] then lw' = lw else index_fill lw neg 1 = Inr lw')
          \<and> (if unmap_outputs
              then unmap_all (length flat_anchors) inside_flags (l, lw', bt, bw)
                     = Inr (labels, label_weights, bbox_targets, bbox_weights)
              else (labels, label_weights, bbox_targets, bbox_weights) = (l, lw', bt, bw)))"
  using ret shape inside any sel gt unfolding sr
  by (auto simp: anchor_target_single_def Let_def ebind_Inr_iff eassert_def
      split: if_split_asm)

section \<open>Lemmas about the loop over the images\<close>

lemma cat_Inr: "cat ts = Inr r \<longleftrightarrow> ts \<noteq> [] \<and> r = concat ts"
  by (auto simp: cat_def)


lemma concat_levels_ok:
  assumes "distinct is"
    and "\<forall>i\<in>set is. i < length al \<and> i < length vl
           \<and> al ! i = Levels (A ! i) \<and> vl ! i = Levels (V ! i)
           \<and> length (A ! i) = length (V ! i) \<and> A ! i \<noteq> []"
  shows "concat_levels is (al, vl)
       = (None, (fold (\<lambda>i s. s[i := Flat (concat (A ! i))]) is al,
                 fold (\<lambda>i s. s[i := Flat (concat (V ! i))]) is vl))"
  using assms
proof (induction "is" arbitrary: al vl)
  case Nil
  then show ?case by simp
next
  case (Cons i rest)
  from Cons.prems(2) have i: "al ! i = Levels (A ! i)" "vl ! i = Levels (V ! i)"
    "length (A ! i) = length (V ! i)" "A ! i \<noteq> []" "V ! i \<noteq> []"
    by auto
  have "\<forall>j\<in>set rest. j < length (al[i := Flat (concat (A ! i))])
      \<and> j < length (vl[i := Flat (concat (V ! i))])
      \<and> al[i := Flat (concat (A ! i))] ! j = Levels (A ! j)
      \<and> vl[i := Flat (concat (V ! i))] ! j = Levels (V ! j)
      \<and> length (A ! j) = length (V ! j) \<and> A ! j \<noteq> []"
    using Cons.prems by (auto simp: nth_list_update)
  with Cons.IH Cons.prems(1) i show ?case
    by (simp add: cat_def)
qed

lemma fold_update_upt:
  "length xs = n \<Longrightarrow> fold (\<lambda>i s. s[i := f i]) [0..<n] xs = map f [0..<n]"
  by (rule nth_equalityI) (simp_all add: length_fold_update nth_fold_update)


lemma concat_levels_all:
  assumes "length A = n" "length V = n"
    and "\<forall>i<n. length (A ! i) = length (V ! i) \<and> A ! i \<noteq> []"
  shows "concat_levels [0..<n] (map Levels A, map Levels V)
       = (None, (map (\<lambda>lv. Flat (concat lv)) A, map (\<lambda>lv. Flat (concat lv)) V))"
proof -
  have "concat_levels [0..<n] (map Levels A, map Levels V)
      = (None, (fold (\<lambda>i s. s[i := Flat (concat (A ! i))]) [0..<n] (map Levels A),
                fold (\<lambda>i s. s[i := Flat (concat (V ! i))]) [0..<n] (map Levels V)))"
    using assms by (intro concat_levels_ok) auto
  moreover have "map (\<lambda>i. Flat (concat (A ! i))) [0..<n] = map (\<lambda>lv. Flat (concat lv)) A"
    "map (\<lambda>i. Flat (concat (V ! i))) [0..<n] = map (\<lambda>lv. Flat (concat lv)) V"
    using assms(1,2) by (auto intro: nth_equalityI)
  ultimately show ?thesis
    using assms(1,2) by (simp add: fold_update_upt)
qed


text \<open>The definitions that evaluation on concrete inputs unfolds.\<close>

lemmas demo_defs = demo_sample_def demo_bbox2delta_def demo_ops_def demo_cfg_def demo_meta_def
  demo_anchors_def demo_flags_def demo_gt_def

lemmas prim_defs = anchor_inside_flags_def bool_and_def mask_select_def
  sample_anchors_def assign_positives_def index_put_def broadcast_to_def index_fill_def
  index_select_def unmap_all_def unmap_def eassert_def zero_row_def one_row_def Let_def

lemmas demo_list_defs = demo_levels_def demo_anchor_list_def demo_valid_flag_list_def

section \<open>Properties of the anchor targets\<close>

text \<open>
  C10. In \<open>anchor_target_single\<close>, on every path that reaches the final assertion
  (ground-truth boxes not empty, at least one anchor inside the border, no earlier
  statement raising), the assertion holds when the sampled positive and negative indices
  are sets without repetition that are disjoint: the call returns, and the sum of the
  returned label weights is the number of positive plus the number of negative samples,
  with and without \<open>unmap_outputs\<close>.
\<close>

theorem label_weight_sum_assertion:
  fixes ops :: "('a, 'r) bbox_ops"
  assumes shape: "img_shape meta = (img_h, img_w, c)"
    and inside: "anchor_inside_flags flat_anchors valid_flags (img_h, img_w) (allowed_border cfg)
                   = Inr inside_flags"
    and lenf: "length valid_flags = length flat_anchors"
    and any: "list_ex id inside_flags"
    and sel: "mask_select flat_anchors inside_flags = Inr anchors"
    and gt: "gt \<noteq> []"
    and sr: "sr = sample_anchors ops cfg sampling anchors gt gt_bboxes_ignore gt_labels"
    and range: "\<forall>i \<in> set (pos_inds sr) \<union> set (neg_inds sr). i < length anchors"
    and deltas: "pos_inds sr \<noteq> [] \<longrightarrow>
                   length (bbox2delta ops (pos_bboxes sr) (pos_gt_bboxes sr) target_means target_stds)
                     = length (pos_inds sr)"
    and labs: "pos_inds sr \<noteq> [] \<longrightarrow>
                 (case gt_labels of None \<Rightarrow> True
                  | Some gl \<Rightarrow> length (pos_assigned_gt_inds sr) = length (pos_inds sr)
                       \<and> (\<forall>i \<in> set (pos_assigned_gt_inds sr). i < length gl))"
    and pw: "pos_inds sr \<noteq> [] \<longrightarrow> pos_weight cfg \<le> 0"
    and disj: "distinct (pos_inds sr)" "distinct (neg_inds sr)"
              "set (pos_inds sr) \<inter> set (neg_inds sr) = {}"
  shows "\<exists>labels label_weights bbox_targets bbox_weights.
           anchor_target_single ops flat_anchors valid_flags (Some gt) gt_bboxes_ignore gt_labels
             meta target_means target_stds cfg label_channels sampling unmap_outputs
           = Inr (Some labels, Some label_weights, Some bbox_targets, Some bbox_weights,
                  Some (pos_inds sr), Some (neg_inds sr))
           \<and> sum_list label_weights = real (length (pos_inds sr) + length (neg_inds sr))"
proof -
  let ?n = "length anchors"
  let ?pos = "pos_inds sr" and ?neg = "neg_inds sr"
  let ?z4 = "replicate ?n zero_row"
  let ?lwp = "fold (\<lambda>i acc. acc[i := 1]) ?pos (replicate ?n (0::real))"
  let ?lw = "fold (\<lambda>i acc. acc[i := 1]) ?neg ?lwp"
  have leni: "length inside_flags = length flat_anchors"
    using inside lenf by (rule length_anchor_inside_flags)
  have lena: "?n = length (filter id inside_flags)"
    using sel by (simp add: length_mask_select)
  have rp: "\<forall>i\<in>set ?pos. i < ?n" and rn: "\<forall>i\<in>set ?neg. i < ?n"
    using range by auto
  have "card (set ?pos \<union> set ?neg) = length ?pos + length ?neg"
    using disj by (simp add: card_union_lengths)
  then have sum_inner: "sum_list ?lw = real (length ?pos + length ?neg)"
    using sum_label_weights [OF rp rn] by simp
  have len_lw: "length ?lw = ?n"
    by (simp add: length_fold_update)
  have sum_outer:
    "sum_list (mask_put (replicate (length flat_anchors) 0) inside_flags ?lw)
       = real (length ?pos + length ?neg)"
    using sum_list_mask_put_zeros [of inside_flags "length flat_anchors" ?lw]
      leni lena len_lw sum_inner by simp
  define bt where "bt = fold (\<lambda>(i, v) acc. acc[i := v])
      (zip ?pos (bbox2delta ops (pos_bboxes sr) (pos_gt_bboxes sr) target_means target_stds)) ?z4"
  define bw where "bw = fold (\<lambda>i acc. acc[i := one_row]) ?pos ?z4"
  define l where "l = (case gt_labels of
      None \<Rightarrow> fold (\<lambda>i acc. acc[i := 1]) ?pos (replicate ?n (0::int))
    | Some gl \<Rightarrow> fold (\<lambda>(i, v) acc. acc[i := v])
                  (zip ?pos (map ((!) gl) (pos_assigned_gt_inds sr))) (replicate ?n 0))"
  have lens: "length bt = ?n" "length bw = ?n" "length l = ?n"
    by (simp_all add: bt_def bw_def l_def length_fold_update length_fold_zip_update
        split: option.splits)
  have posblock:
    "(if length ?pos > 0 then
        assign_positives ops cfg sr gt_labels target_means target_stds
          (?z4, ?z4, replicate ?n 0, replicate ?n 0)
      else Inr (?z4, ?z4, replicate ?n 0, replicate ?n 0)) = Inr (bt, bw, l, ?lwp)"
  proof (cases "?pos = []")
    case True
    then show ?thesis
      by (simp add: bt_def bw_def l_def split: option.splits)
  next
    case False
    with deltas labs pw rp show ?thesis
      by (simp add: assign_positives_ok [where n = ?n] bt_def bw_def l_def)
  qed
  have negblock: "(if length ?neg > 0 then index_fill ?lwp ?neg 1 else Inr ?lwp) = Inr ?lw"
    using rn by (cases "?neg = []") (simp_all add: index_fill_ok length_fold_update)
  have um: "unmap_all (length flat_anchors) inside_flags (l, ?lw, bt, bw)
      = Inr (mask_put (replicate (length flat_anchors) 0) inside_flags l,
             mask_put (replicate (length flat_anchors) 0) inside_flags ?lw,
             mask_put (replicate (length flat_anchors) zero_row) inside_flags bt,
             mask_put (replicate (length flat_anchors) zero_row) inside_flags bw)"
    using leni lena lens len_lw by (intro unmap_all_ok) simp_all
  show ?thesis
    using shape inside any sel gt posblock negblock um sum_inner sum_outer
    unfolding sr
    by (cases unmap_outputs)
       (simp_all add: anchor_target_single_def Let_def eassert_True split del: if_split)
qed

theorem label_weight_sum_assertion_witness:
  "img_shape demo_meta = (10, 10, 3)
   \<and> anchor_inside_flags demo_anchors demo_flags (10, 10) (allowed_border demo_cfg)
       = Inr [True, False, True, True]
   \<and> length demo_flags = length demo_anchors
   \<and> list_ex id [True, False, True, True]
   \<and> mask_select demo_anchors [True, False, True, True]
       = Inr [(0, 0, 4, 4), (5, 5, 9, 9), (2, 2, 6, 6)]
   \<and> demo_gt \<noteq> []
   \<and> pos_inds (sample_anchors demo_ops demo_cfg True
                 [(0, 0, 4, 4), (5, 5, 9, 9), (2, 2, 6, 6)] demo_gt None None) = [0]
   \<and> neg_inds (sample_anchors demo_ops demo_cfg True
                 [(0, 0, 4, 4), (5, 5, 9, 9), (2, 2, 6, 6)] demo_gt None None) = [1]
   \<and> pos_weight demo_cfg \<le> 0
   \<and> (\<exists>labels label_weights bbox_targets bbox_weights.
         anchor_target_single demo_ops demo_anchors demo_flags (Some demo_gt) None None
           demo_meta [0, 0, 0, 0] [1, 1, 1, 1] demo_cfg 1 True True
         = Inr (Some labels, Some label_weights, Some bbox_targets, Some bbox_weights,
                Some [0], Some [1])
         \<and> sum_list label_weights = 2)"
proof -
  let ?anchors = "[(0, 0, 4, 4), (5, 5, 9, 9), (2, 2, 6, 6)] :: row4 list"
  let ?sr = "sample_anchors demo_ops demo_cfg True ?anchors demo_gt None None"
  have shape: "img_shape demo_meta = (10, 10, 3)"
    by (simp add: demo_defs)
  have inside: "anchor_inside_flags demo_anchors demo_flags (10, 10) (allowed_border demo_cfg)
       = Inr [True, False, True, True]"
    by (simp add: demo_defs prim_defs)
  have lenf: "length demo_flags = length demo_anchors"
    by (simp add: demo_defs)
  have any: "list_ex id [True, False, True, True]"
    by simp
  have sel: "mask_select demo_anchors [True, False, True, True] = Inr ?anchors"
    by (simp add: demo_defs prim_defs)
  have gt: "demo_gt \<noteq> []"
    by (simp add: demo_defs)
  have pos: "pos_inds ?sr = [0]" and neg: "neg_inds ?sr = [1]"
    by (simp_all add: demo_defs prim_defs)
  have range: "\<forall>i \<in> set (pos_inds ?sr) \<union> set (neg_inds ?sr). i < length ?anchors"
    by (simp add: pos neg)
  have deltas: "pos_inds ?sr \<noteq> [] \<longrightarrow>
      length (bbox2delta demo_ops (pos_bboxes ?sr) (pos_gt_bboxes ?sr) [0, 0, 0, 0] [1, 1, 1, 1])
        = length (pos_inds ?sr)"
    by (simp add: demo_defs prim_defs)
  have labs: "pos_inds ?sr \<noteq> [] \<longrightarrow>
      (case None :: int list option of None \<Rightarrow> True
       | Some gl \<Rightarrow> length (pos_assigned_gt_inds ?sr) = length (pos_inds ?sr)
            \<and> (\<forall>i \<in> set (pos_assigned_gt_inds ?sr). i < length gl))"
    by simp
  have pw: "pos_weight demo_cfg \<le> 0"
    by (simp add: demo_defs)
  then have pw': "pos_inds ?sr \<noteq> [] \<longrightarrow> pos_weight demo_cfg \<le> 0"
    by simp
  have d: "distinct (pos_inds ?sr)" "distinct (neg_inds ?sr)"
    "set (pos_inds ?sr) \<inter> set (neg_inds ?sr) = {}"
    by (simp_all add: pos neg)
  from label_weight_sum_assertion [where label_channels = 1 and unmap_outputs = True,
      OF shape inside lenf any sel gt refl range deltas labs pw' d]
  show ?thesis
    using shape inside lenf any sel gt pos neg pw by simp
qed

text \<open>
  C5. For an image whose set of ground-truth boxes is not empty and that has an anchor
  inside the allowed border, the tensors that \<open>anchor_target_single\<close> returns give each
  sampled positive anchor the row of \<open>bbox2delta\<close> for it and its matched ground-truth
  box as regression target, with box weight 1 and label weight 1, give each sampled
  negative anchor label weight 1, and leave every other anchor with label weight 0 and
  box weight 0. Every sampled index has a position in the returned tensors.
\<close>

theorem anchor_target_single_targets:
  fixes ops :: "('a, 'r) bbox_ops"
  assumes shape: "img_shape meta = (img_h, img_w, c)"
    and inside: "anchor_inside_flags flat_anchors valid_flags (img_h, img_w) (allowed_border cfg)
                   = Inr inside_flags"
    and any: "list_ex id inside_flags"
    and sel: "mask_select flat_anchors inside_flags = Inr anchors"
    and gt: "gt \<noteq> []"
    and sr: "sr = sample_anchors ops cfg sampling anchors gt gt_bboxes_ignore gt_labels"
    and deltas: "deltas = bbox2delta ops (pos_bboxes sr) (pos_gt_bboxes sr) target_means target_stds"
    and dl: "length deltas = length (pos_inds sr)"
    and ret: "anchor_target_single ops flat_anchors valid_flags (Some gt) gt_bboxes_ignore gt_labels
             meta target_means target_stds cfg label_channels sampling unmap_outputs
           = Inr (Some labels, Some label_weights, Some bbox_targets, Some bbox_weights,
                  Some pos, Some neg)"
  shows "pos = pos_inds sr \<and> neg = neg_inds sr
     \<and> length bbox_targets = length label_weights \<and> length bbox_weights = length label_weights
     \<and> (\<forall>j \<in> set pos \<union> set neg. \<exists>p < length label_weights.
            valid_index unmap_outputs inside_flags p = Some j)
     \<and> (\<forall>p < length label_weights. \<forall>k < length pos.
            valid_index unmap_outputs inside_flags p = Some (pos ! k) \<longrightarrow>
              bbox_targets ! p = deltas ! k \<and> bbox_weights ! p = one_row
              \<and> label_weights ! p = 1)
     \<and> (\<forall>p < length label_weights. \<forall>j \<in> set neg.
            valid_index unmap_outputs inside_flags p = Some j \<longrightarrow> label_weights ! p = 1)
     \<and> (\<forall>p < length label_weights.
            (\<forall>j \<in> set pos \<union> set neg. valid_index unmap_outputs inside_flags p \<noteq> Some j) \<longrightarrow>
              label_weights ! p = 0 \<and> bbox_weights ! p = zero_row)"
proof -
  let ?n = "length anchors"
  let ?z4 = "replicate ?n zero_row"
  let ?BT = "fold (\<lambda>(i, v) acc. acc[i := v]) (zip pos deltas) ?z4"
  let ?BW = "fold (\<lambda>i acc. acc[i := one_row]) pos ?z4"
  let ?LW = "fold (\<lambda>i acc. acc[i := 1]) neg
               (fold (\<lambda>i acc. acc[i := 1]) pos (replicate ?n (0::real)))"
  let ?vi = "valid_index unmap_outputs inside_flags"
  from anchor_target_single_SomeD [OF shape inside any sel gt sr ret]
  obtain bt bw l lw lw' where pn: "pos = pos_inds sr" "neg = neg_inds sr"
    and total: "sum_list label_weights = real (length pos + length neg)"
    and pb: "if pos = [] then (bt, bw, l, lw) = (?z4, ?z4, replicate ?n 0, replicate ?n 0)
             else assign_positives ops cfg sr gt_labels target_means target_stds
                    (?z4, ?z4, replicate ?n 0, replicate ?n 0) = Inr (bt, bw, l, lw)"
    and nb: "if neg = [] then lw' = lw else index_fill lw neg 1 = Inr lw'"
    and ub: "if unmap_outputs
             then unmap_all (length flat_anchors) inside_flags (l, lw', bt, bw)
                    = Inr (labels, label_weights, bbox_targets, bbox_weights)
             else (labels, label_weights, bbox_targets, bbox_weights) = (l, lw', bt, bw)"
    by blast
  have lena: "?n = length (filter id inside_flags)"
    and leni: "length inside_flags = length flat_anchors"
    using sel by (simp_all add: length_mask_select)
  \<comment> \<open>the tensors before unmapping\<close>
  have inner_pos: "(\<forall>i\<in>set pos. i < ?n) \<and> bt = ?BT \<and> bw = ?BW
      \<and> lw = fold (\<lambda>i acc. acc[i := 1]) pos (replicate ?n 0) \<and> length l = ?n"
  proof (cases "pos = []")
    case True
    with pb show ?thesis by simp
  next
    case False
    with pb have ap: "assign_positives ops cfg sr gt_labels target_means target_stds
        (?z4, ?z4, replicate ?n 0, replicate ?n 0) = Inr (bt, bw, l, lw)"
      by simp
    from assign_positives_Inr [OF ap] assign_positives_length_labels [OF ap] dl deltas pn
    show ?thesis by simp
  qed
  then have rp: "\<forall>i\<in>set pos. i < ?n" and bt: "bt = ?BT" and bw: "bw = ?BW"
    and lw: "lw = fold (\<lambda>i acc. acc[i := 1]) pos (replicate ?n 0)" and ll: "length l = ?n"
    by simp_all
  have inner_neg: "(\<forall>i\<in>set neg. i < ?n) \<and> lw' = ?LW"
  proof (cases "neg = []")
    case True
    with nb lw show ?thesis by simp
  next
    case False
    with nb have "index_fill lw neg 1 = Inr lw'" by simp
    from index_fill_Inr [OF this] lw show ?thesis
      by (simp add: length_fold_update)
  qed
  then have rn: "\<forall>i\<in>set neg. i < ?n" and lw': "lw' = ?LW"
    by simp_all
  have lens: "length ?BT = ?n" "length ?BW = ?n" "length ?LW = ?n"
    by (simp_all add: length_fold_update length_fold_zip_update)
  \<comment> \<open>the tensors that are returned\<close>
  have outer: "label_weights = (if unmap_outputs
                  then mask_put (replicate (length flat_anchors) 0) inside_flags ?LW else ?LW)
      \<and> bbox_targets = (if unmap_outputs
                  then mask_put (replicate (length flat_anchors) zero_row) inside_flags ?BT else ?BT)
      \<and> bbox_weights = (if unmap_outputs
                  then mask_put (replicate (length flat_anchors) zero_row) inside_flags ?BW else ?BW)"
  proof (cases unmap_outputs)
    case True
    with ub have "unmap_all (length flat_anchors) inside_flags (l, lw', bt, bw)
        = Inr (labels, label_weights, bbox_targets, bbox_weights)"
      by simp
    from unmap_all_Inr [OF this] ll lens lena bt bw lw' True show ?thesis
      by simp
  next
    case False
    with ub bt bw lw' show ?thesis by simp
  qed
  then have olw: "label_weights = (if unmap_outputs
                  then mask_put (replicate (length flat_anchors) 0) inside_flags ?LW else ?LW)"
    and obt: "bbox_targets = (if unmap_outputs
                  then mask_put (replicate (length flat_anchors) zero_row) inside_flags ?BT else ?BT)"
    and obw: "bbox_weights = (if unmap_outputs
                  then mask_put (replicate (length flat_anchors) zero_row) inside_flags ?BW else ?BW)"
    by simp_all
  have N: "length label_weights = (if unmap_outputs then length flat_anchors else ?n)"
    "length bbox_targets = length label_weights" "length bbox_weights = length label_weights"
    by (simp_all add: olw obt obw length_mask_put lens)
  \<comment> \<open>the sampled index sets are distinct and disjoint, by the final assertion\<close>
  have "sum_list ?LW = sum_list label_weights"
    using sum_list_mask_put_zeros [of inside_flags "length flat_anchors" ?LW] leni lena lens
    by (simp add: olw)
  with total sum_label_weights [OF rp rn]
  have "card (set pos \<union> set neg) = length pos + length neg"
    by simp
  then have dpos: "distinct pos"
    by (simp add: card_union_lengths)
  \<comment> \<open>reading the returned tensors through \<open>valid_index\<close>\<close>
  have read: "j < ?n \<and> label_weights ! p = ?LW ! j \<and> bbox_targets ! p = ?BT ! j
                \<and> bbox_weights ! p = ?BW ! j"
    if "p < length label_weights" "?vi p = Some j" for p j
  proof (cases unmap_outputs)
    case True
    with that N have p: "p < length inside_flags" "inside_flags ! p" "j = inside_rank inside_flags p"
      by (auto simp: valid_index_def leni split: if_splits)
    then have "j < ?n"
      by (simp add: lena inside_rank_less)
    with p True leni lena lens show ?thesis
      by (simp add: olw obt obw nth_mask_put)
  next
    case False
    with that N show ?thesis
      by (simp add: valid_index_def olw obt obw)
  qed
  have unread: "label_weights ! p = 0 \<and> bbox_weights ! p = zero_row"
    if "p < length label_weights" "?vi p = None" for p
  proof -
    from that have u: unmap_outputs and np: "\<not> inside_flags ! p"
      by (auto simp: valid_index_def split: if_splits)
    with that N have "p < length inside_flags" by (simp add: leni)
    with u np leni lena lens show ?thesis
      by (simp add: olw obw nth_mask_put)
  qed
  have c1: "\<forall>j \<in> set pos \<union> set neg. \<exists>p < length label_weights. ?vi p = Some j"
  proof
    fix j assume "j \<in> set pos \<union> set neg"
    with rp rn have j: "j < ?n" by auto
    show "\<exists>p < length label_weights. ?vi p = Some j"
    proof (cases unmap_outputs)
      case True
      from j lena ex_inside_rank [of j inside_flags]
      obtain p where "p < length inside_flags" "inside_flags ! p" "inside_rank inside_flags p = j"
        by auto
      with True N leni show ?thesis
        by (auto simp: valid_index_def)
    next
      case False
      with j N show ?thesis by (auto simp: valid_index_def)
    qed
  qed
  have c2: "\<forall>p < length label_weights. \<forall>k < length pos. ?vi p = Some (pos ! k) \<longrightarrow>
              bbox_targets ! p = deltas ! k \<and> bbox_weights ! p = one_row \<and> label_weights ! p = 1"
  proof (intro allI impI)
    fix p k assume p: "p < length label_weights" and k: "k < length pos"
      and v: "?vi p = Some (pos ! k)"
    from read [OF p v] have r: "pos ! k < ?n" "label_weights ! p = ?LW ! (pos ! k)"
      "bbox_targets ! p = ?BT ! (pos ! k)" "bbox_weights ! p = ?BW ! (pos ! k)"
      by simp_all
    have "?BT ! (pos ! k) = deltas ! k"
      using dpos dl pn rp k by (intro nth_fold_zip_update_hit) simp_all
    moreover have "?BW ! (pos ! k) = one_row" "?LW ! (pos ! k) = 1"
      using r(1) k by (simp_all add: nth_fold_update length_fold_update)
    ultimately show "bbox_targets ! p = deltas ! k \<and> bbox_weights ! p = one_row
        \<and> label_weights ! p = 1"
      using r by simp
  qed
  have c3: "\<forall>p < length label_weights. \<forall>j \<in> set neg. ?vi p = Some j \<longrightarrow> label_weights ! p = 1"
  proof (intro allI impI ballI)
    fix p j assume p: "p < length label_weights" and j: "j \<in> set neg" and v: "?vi p = Some j"
    from read [OF p v] j show "label_weights ! p = 1"
      by (simp add: nth_fold_update length_fold_update)
  qed
  have c4: "\<forall>p < length label_weights. (\<forall>j \<in> set pos \<union> set neg. ?vi p \<noteq> Some j) \<longrightarrow>
              label_weights ! p = 0 \<and> bbox_weights ! p = zero_row"
  proof (intro allI impI)
    fix p assume p: "p < length label_weights"
      and no: "\<forall>j \<in> set pos \<union> set neg. ?vi p \<noteq> Some j"
    show "label_weights ! p = 0 \<and> bbox_weights ! p = zero_row"
    proof (cases "?vi p")
      case None
      with p show ?thesis by (rule unread)
    next
      case (Some j)
      with no have "j \<notin> set pos" "j \<notin> set neg" by auto
      with read [OF p Some] show ?thesis
        by (simp add: nth_fold_update length_fold_update)
    qed
  qed
  from pn N c1 c2 c3 c4 show ?thesis by blast
qed

theorem anchor_target_single_targets_witness:
  "img_shape demo_meta = (10, 10, 3)
   \<and> anchor_inside_flags demo_anchors demo_flags (10, 10) (allowed_border demo_cfg)
       = Inr [True, False, True, True]
   \<and> list_ex id [True, False, True, True]
   \<and> mask_select demo_anchors [True, False, True, True]
       = Inr [(0, 0, 4, 4), (5, 5, 9, 9), (2, 2, 6, 6)]
   \<and> demo_gt \<noteq> []
   \<and> bbox2delta demo_ops [(0, 0, 4, 4)] [(1, 1, 5, 5)] [0, 0, 0, 0] [1, 1, 1, 1] = [(1, 1, 1, 1)]
   \<and> anchor_target_single demo_ops demo_anchors demo_flags (Some demo_gt) None None
           demo_meta [0, 0, 0, 0] [1, 1, 1, 1] demo_cfg 1 True True
       = Inr (Some [1, 0, 0, 0], Some [1, 0, 1, 0],
              Some [(1, 1, 1, 1), (0, 0, 0, 0), (0, 0, 0, 0), (0, 0, 0, 0)],
              Some [(1, 1, 1, 1), (0, 0, 0, 0), (0, 0, 0, 0), (0, 0, 0, 0)],
              Some [0], Some [1])
   \<and> pos_inds (sample_anchors demo_ops demo_cfg True
                 [(0, 0, 4, 4), (5, 5, 9, 9), (2, 2, 6, 6)] demo_gt None None) = [0]
   \<and> neg_inds (sample_anchors demo_ops demo_cfg True
                 [(0, 0, 4, 4), (5, 5, 9, 9), (2, 2, 6, 6)] demo_gt None None) = [1]
   \<and> valid_index True [True, False, True, True] 0 = Some 0
   \<and> valid_index True [True, False, True, True] 1 = None
   \<and> valid_index True [True, False, True, True] 2 = Some 1
   \<and> valid_index True [True, False, True, True] 3 = Some 2"
proof -
  let ?anchors = "[(0, 0, 4, 4), (5, 5, 9, 9), (2, 2, 6, 6)] :: row4 list"
  let ?sr = "sample_anchors demo_ops demo_cfg True ?anchors demo_gt None None"
  have shape: "img_shape demo_meta = (10, 10, 3)"
    by (simp add: demo_defs)
  have inside: "anchor_inside_flags demo_anchors demo_flags (10, 10) (allowed_border demo_cfg)
       = Inr [True, False, True, True]"
    by (simp add: demo_defs prim_defs)
  have any: "list_ex id [True, False, True, True]"
    by simp
  have sel: "mask_select demo_anchors [True, False, True, True] = Inr ?anchors"
    by (simp add: demo_defs prim_defs)
  have gt: "demo_gt \<noteq> []"
    by (simp add: demo_defs)
  have pos: "pos_inds ?sr = [0]" and neg: "neg_inds ?sr = [1]"
    by (simp_all add: demo_defs prim_defs)
  have deltas: "bbox2delta demo_ops [(0, 0, 4, 4)] [(1, 1, 5, 5)] [0, 0, 0, 0] [1, 1, 1, 1]
      = [(1, 1, 1, 1)]"
    by (simp add: demo_defs)
  have dl: "length (bbox2delta demo_ops (pos_bboxes ?sr) (pos_gt_bboxes ?sr)
              [0, 0, 0, 0] [1, 1, 1, 1]) = length (pos_inds ?sr)"
    by (simp add: demo_defs prim_defs)
  have ret: "anchor_target_single demo_ops demo_anchors demo_flags (Some demo_gt) None None
           demo_meta [0, 0, 0, 0] [1, 1, 1, 1] demo_cfg 1 True True
       = Inr (Some [1, 0, 0, 0], Some [1, 0, 1, 0],
              Some [(1, 1, 1, 1), (0, 0, 0, 0), (0, 0, 0, 0), (0, 0, 0, 0)],
              Some [(1, 1, 1, 1), (0, 0, 0, 0), (0, 0, 0, 0), (0, 0, 0, 0)],
              Some [0], Some [1])"
    by (simp add: anchor_target_single_def demo_defs prim_defs)
  have vi: "valid_index True [True, False, True, True] 0 = Some 0"
    "valid_index True [True, False, True, True] 1 = None"
    "valid_index True [True, False, True, True] 2 = Some 1"
    "valid_index True [True, False, True, True] 3 = Some 2"
    by (simp_all add: valid_index_def inside_rank_def eval_nat_numeral)
  from anchor_target_single_targets [OF shape inside any sel gt refl refl dl ret]
  show ?thesis
    using shape inside any sel gt deltas ret vi by simp
qed

text \<open>
  C8. \<open>anchor_target\<close> mutates its arguments \<open>anchor_list\<close> and \<open>valid_flag_list\<close> in
  place. When the two lists have one entry per image and every image has the same
  number of anchor levels as of flag levels, at least one, then after the call, whatever
  it returns or raises, the entry of every image in either list is the concatenation of
  its per-level tensors into one flat tensor: no entry holds per-level structure.
\<close>

theorem anchor_target_flattens_lists:
  assumes "length anchor_list = length valid_flag_list"
    and "length valid_flag_list = length img_metas"
    and "\<forall>i<length img_metas.
           length (anchor_list ! i) = length (valid_flag_list ! i) \<and> anchor_list ! i \<noteq> []"
  shows "snd (anchor_target ops anchor_list valid_flag_list gt_bboxes_list img_metas target_means
                target_stds cfg gt_bboxes_ignore_list gt_labels_list label_channels sampling
                unmap_outputs)
         = (map (\<lambda>levels. Flat (concat levels)) anchor_list,
            map (\<lambda>levels. Flat (concat levels)) valid_flag_list)"
proof (cases anchor_list)
  case Nil
  with assms show ?thesis
    by (simp add: anchor_target_def)
next
  case (Cons levels0 rest)
  have "concat_levels [0..<length img_metas] (map Levels anchor_list, map Levels valid_flag_list)
      = (None, (map (\<lambda>lv. Flat (concat lv)) anchor_list,
                map (\<lambda>lv. Flat (concat lv)) valid_flag_list))"
    using assms by (intro concat_levels_all) simp_all
  with assms(1,2) Cons show ?thesis
    by (simp add: anchor_target_def Let_def del: upt_Suc split del: if_split)
qed

theorem anchor_target_flattens_lists_witness:
  "length demo_anchor_list = length demo_valid_flag_list
   \<and> length demo_valid_flag_list = length [demo_meta, demo_meta]
   \<and> length (demo_anchor_list ! 0) = length (demo_valid_flag_list ! 0)
   \<and> length (demo_anchor_list ! 1) = length (demo_valid_flag_list ! 1)
   \<and> demo_anchor_list ! 0 \<noteq> [] \<and> demo_anchor_list ! 1 \<noteq> []
   \<and> snd (anchor_target demo_ops demo_anchor_list demo_valid_flag_list
            [Some demo_gt, Some demo_gt] [demo_meta, demo_meta] [0, 0, 0, 0] [1, 1, 1, 1]
            demo_cfg None None 1 True True)
       = ([Flat [(0, 0, 4, 4), (- 5, 0, 3, 3), (5, 5, 9, 9), (2, 2, 6, 6)],
           Flat [(0, 0, 4, 4), (- 5, 0, 3, 3), (5, 5, 9, 9), (2, 2, 6, 6)]],
          [Flat [True, True, True, True], Flat [False, False, False, False]])"
proof -
  have h1: "length demo_anchor_list = length demo_valid_flag_list"
    and h2: "length demo_valid_flag_list = length [demo_meta, demo_meta]"
    by (simp_all add: demo_list_defs)
  have h3: "\<forall>i<length [demo_meta, demo_meta].
      length (demo_anchor_list ! i) = length (demo_valid_flag_list ! i)
      \<and> demo_anchor_list ! i \<noteq> []"
    by (simp add: demo_list_defs less_Suc_eq)
  from anchor_target_flattens_lists [OF h1 h2 h3, of demo_ops "[Some demo_gt, Some demo_gt]"
      "[0, 0, 0, 0]" "[1, 1, 1, 1]" demo_cfg None None 1 True True]
  show ?thesis
    using h1 h2 by (simp add: demo_list_defs)
qed



section \<open>Lemmas about the neck modules\<close>

lemma gather_loop_eq:
  "gather_loop F rl inputs gs idx feats
     = feats @ map (\<lambda>i. if i < rl then adaptive_max_pool2d F (inputs ! i) gs
                         else interpolate F (inputs ! i) gs) idx"
  by (induction idx arbitrary: feats) (simp_all add: Let_def)

lemma scatter_loop_eq:
  "scatter_loop F rl inputs bsf idx outs
     = outs @ map (\<lambda>i. add F (if i < rl then interpolate F bsf (drop 2 (size_of F (inputs ! i)))
                                else adaptive_max_pool2d F bsf (drop 2 (size_of F (inputs ! i))))
                           (inputs ! i)) idx"
  by (induction idx arbitrary: outs) (simp_all add: Let_def)

lemma gather_loop_gathered:
  "gather_loop F (refine_level self) inputs (drop 2 (size_of F (inputs ! refine_level self)))
     idx [] = map (gathered F self inputs) idx"
  by (simp add: gather_loop_eq gathered_def Let_def)

lemma scatter_loop_scattered:
  "scatter_loop F (refine_level self) inputs bsf idx []
     = map (\<lambda>i. add F (scattered F self inputs bsf i) (inputs ! i)) idx"
  by (simp add: scatter_loop_eq scattered_def Let_def)

lemma mean_of_upt:
  "0 < n \<Longrightarrow>
   mean_of F (map g [0..<n])
     = Inr (div_int F (foldl (add F) (radd_int F 0 (g 0)) (map g [1..<n])) n)"
  by (simp add: mean_of_def upt_conv_Cons del: upt_Suc)

lemma BFP_forward_eq:
  assumes "\<not> output_single_lvl self"
    and "length inputs = num_levels self"
    and "refine_level self < num_levels self"
  shows "let n = num_levels self;
             total = foldl (add F) (radd_int F 0 (gathered F self inputs 0))
                       (map (gathered F self inputs) [1..<n]);
             avg = div_int F total n;
             bsf = (if refine_type self \<noteq> None then refine self avg else avg)
         in BFP_forward F self inputs
            = Inr (OutTuple (map (\<lambda>i. OutTensor (add F (scattered F self inputs bsf i) (inputs ! i)))
                               [0..<n]))"
proof -
  from assms(3) have n: "0 < num_levels self" by simp
  show ?thesis
    using assms
    by (simp add: BFP_forward_def Let_def gather_loop_gathered scatter_loop_scattered
        mean_of_upt [OF n] del: upt_Suc)
qed



lemma take_drop_4: "length (s :: nat list) = 4 \<Longrightarrow> take 2 s @ drop 2 s = s"
  by simp










section \<open>Properties of the neck modules\<close>

text \<open>
  C3. In \<open>BFP.forward\<close> with \<open>output_single_lvl\<close> disabled, every input level is
  first resized to the spatial size of the input of the refine level (levels below the
  refine level by adaptive max pooling, the others by nearest-neighbour interpolation:
  \<open>gathered\<close>), the resized features are summed and divided by \<open>num_levels\<close> and
  refined when a refine type is set, and output level \<open>i\<close> is \<open>inputs[i]\<close> plus that
  integrated feature resized back to the spatial size of \<open>inputs[i]\<close> (\<open>scattered\<close>).
\<close>

theorem BFP_forward_gather_refine_scatter:
  assumes "\<not> output_single_lvl self"
    and "length inputs = num_levels self"
    and "refine_level self < num_levels self"
  shows "let n = num_levels self;
             total = foldl (add F) (radd_int F 0 (gathered F self inputs 0))
                       (map (gathered F self inputs) [1..<n]);
             avg = div_int F total n;
             bsf = (if refine_type self \<noteq> None then refine self avg else avg)
         in BFP_forward F self inputs
            = Inr (OutTuple (map (\<lambda>i. OutTensor (add F (scattered F self inputs bsf i) (inputs ! i)))
                               [0..<n]))"
  using assms by (rule BFP_forward_eq)

theorem BFP_forward_gather_refine_scatter_witness:
  "\<not> output_single_lvl demo_bfp \<and> length demo_inputs = num_levels demo_bfp
   \<and> refine_level demo_bfp < num_levels demo_bfp
   \<and> gathered shape_torch demo_bfp demo_inputs 0 = [1, 256, 8, 8]
   \<and> gathered shape_torch demo_bfp demo_inputs 2 = [1, 256, 8, 8]
   \<and> scattered shape_torch demo_bfp demo_inputs [1, 256, 8, 8] 2 = [1, 256, 4, 4]
   \<and> BFP_forward shape_torch demo_bfp demo_inputs
       = Inr (OutTuple [OutTensor [1, 256, 16, 16], OutTensor [1, 256, 8, 8],
                        OutTensor [1, 256, 4, 4]])"
proof -
  have h: "\<not> output_single_lvl demo_bfp" "length demo_inputs = num_levels demo_bfp"
    "refine_level demo_bfp < num_levels demo_bfp"
    by (simp_all add: demo_bfp_def demo_inputs_def)
  from BFP_forward_gather_refine_scatter [OF h, of shape_torch] h show ?thesis
    by (simp add: gathered_def scattered_def shape_torch_def demo_bfp_def demo_inputs_def Let_def
        upt_conv_Cons)
qed




section \<open>Lemmas about the block dataset\<close>


lemma fill_left_inv:
  fixes l :: "'a option list"
  assumes "hf < length l" "k \<le> hf"
  shows "length (fold (left_step hf) [0..<k] l) = length l
       \<and> (\<forall>r<length l. r < hf - k \<or> hf \<le> r \<longrightarrow> fold (left_step hf) [0..<k] l ! r = l ! r)
       \<and> (\<forall>r. hf - k \<le> r \<and> r < hf \<longrightarrow>
             fold (left_step hf) [0..<k] l ! r
               = (if l ! r \<noteq> None then l ! r else fold (left_step hf) [0..<k] l ! Suc r))"
  using assms(2)
proof (induction k)
  case 0
  then show ?case by auto
next
  case (Suc k)
  let ?L = "fold (left_step hf) [0..<k] l"
  let ?p = "hf - Suc k"
  from Suc.prems have "k \<le> hf" by simp
  note ih = Suc.IH [OF this]
  from ih have IH: "length ?L = length l"
    "\<And>r. r < length l \<Longrightarrow> r < hf - k \<or> hf \<le> r \<Longrightarrow> ?L ! r = l ! r"
    "\<And>r. hf - k \<le> r \<Longrightarrow> r < hf \<Longrightarrow> ?L ! r = (if l ! r \<noteq> None then l ! r else ?L ! Suc r)"
    by blast+
  from Suc.prems assms(1) have p: "?p < hf - k" "?p < length l" "Suc ?p = hf - k" "hf - k \<le> hf"
    by simp_all
  have Lp: "?L ! ?p = l ! ?p"
    using IH(2) p by simp
  have step: "left_step hf k ?L = (if l ! ?p = None then ?L[?p := ?L ! (hf - k)] else ?L)"
    by (simp add: left_step_def Lp)
  show ?case
  proof (intro conjI allI impI)
    show "length (fold (left_step hf) [0..<Suc k] l) = length l"
      by (simp add: step IH(1))
  next
    fix r assume "r < length l" "r < hf - Suc k \<or> hf \<le> r"
    then show "fold (left_step hf) [0..<Suc k] l ! r = l ! r"
      using IH(1,2) p by (auto simp: step nth_list_update)
  next
    fix r assume r: "hf - Suc k \<le> r \<and> r < hf"
    show "fold (left_step hf) [0..<Suc k] l ! r
        = (if l ! r \<noteq> None then l ! r else fold (left_step hf) [0..<Suc k] l ! Suc r)"
    proof (cases "r = ?p")
      case True
      with p IH(1) show ?thesis
        by (simp add: step Lp nth_list_update)
    next
      case False
      with r p have "hf - k \<le> r" "r < hf" "Suc r \<noteq> ?p" by simp_all
      with IH(3) [of r] False show ?thesis
        by (simp add: step nth_list_update)
    qed
  qed
qed

lemma fill_right_inv:
  fixes l :: "'a option list"
  assumes "hf + hf < length l" "k \<le> hf"
  shows "length (fold (right_step hf) [0..<k] l) = length l
       \<and> (\<forall>r<length l. r \<le> hf \<or> hf + k < r \<longrightarrow> fold (right_step hf) [0..<k] l ! r = l ! r)
       \<and> (\<forall>r. hf < r \<and> r \<le> hf + k \<longrightarrow>
             fold (right_step hf) [0..<k] l ! r
               = (if l ! r \<noteq> None then l ! r else fold (right_step hf) [0..<k] l ! (r - 1)))"
  using assms(2)
proof (induction k)
  case 0
  then show ?case by auto
next
  case (Suc k)
  let ?L = "fold (right_step hf) [0..<k] l"
  let ?p = "Suc (hf + k)"
  from Suc.prems have "k \<le> hf" by simp
  note ih = Suc.IH [OF this]
  from ih have IH: "length ?L = length l"
    "\<And>r. r < length l \<Longrightarrow> r \<le> hf \<or> hf + k < r \<Longrightarrow> ?L ! r = l ! r"
    "\<And>r. hf < r \<Longrightarrow> r \<le> hf + k \<Longrightarrow> ?L ! r = (if l ! r \<noteq> None then l ! r else ?L ! (r - 1))"
    by blast+
  from Suc.prems assms(1) have p: "hf + k < ?p" "?p < length l"
    by simp_all
  have Lp: "?L ! ?p = l ! ?p"
    using IH(2) p by simp
  have step: "right_step hf k ?L = (if l ! ?p = None then ?L[?p := ?L ! (hf + k)] else ?L)"
    by (simp add: right_step_def Lp)
  show ?case
  proof (intro conjI allI impI)
    show "length (fold (right_step hf) [0..<Suc k] l) = length l"
      by (simp add: step IH(1))
  next
    fix r assume "r < length l" "r \<le> hf \<or> hf + Suc k < r"
    then show "fold (right_step hf) [0..<Suc k] l ! r = l ! r"
      using IH(1,2) p by (auto simp: step nth_list_update)
  next
    fix r assume r: "hf < r \<and> r \<le> hf + Suc k"
    show "fold (right_step hf) [0..<Suc k] l ! r
        = (if l ! r \<noteq> None then l ! r else fold (right_step hf) [0..<Suc k] l ! (r - 1))"
    proof (cases "r = ?p")
      case True
      with p IH(1) show ?thesis
        by (simp add: step Lp nth_list_update)
    next
      case False
      with r p have "hf < r" "r \<le> hf + k" "r - 1 \<noteq> ?p" by auto
      with IH(3) [of r] False show ?thesis
        by (simp add: step nth_list_update)
    qed
  qed
qed

lemma fill_left_fold: "fill_left l hf = fold (left_step hf) [0..<hf] l"
  by (simp add: fill_left_def)

lemma fill_right_fold: "fill_right l hf = fold (right_step hf) [0..<hf] l"
  by (simp add: fill_right_def)

lemma nearest_left:
  fixes l f :: "'a option list"
  assumes centre: "f ! hf = l ! hf" "l ! hf \<noteq> None"
    and rec: "\<forall>r<hf. f ! r = (if l ! r \<noteq> None then l ! r else f ! Suc r)"
  shows "p \<le> hf \<Longrightarrow>
         \<exists>q. p \<le> q \<and> q \<le> hf \<and> l ! q \<noteq> None \<and> f ! p = l ! q
             \<and> (\<forall>r\<in>set [p..<q]. l ! r = None)"
proof (induction "hf - p" arbitrary: p)
  case 0
  then have "p = hf" by simp
  with centre show ?case
    by (intro exI [of _ hf]) simp
next
  case (Suc d)
  then have p: "p < hf" and d: "d = hf - Suc p" by simp_all
  show ?case
  proof (cases "l ! p = None")
    case False
    with p rec show ?thesis
      by (intro exI [of _ p]) simp
  next
    case True
    from Suc.hyps(1) [OF d] p obtain q where q: "Suc p \<le> q" "q \<le> hf" "l ! q \<noteq> None"
      "f ! Suc p = l ! q" "\<forall>r\<in>set [Suc p..<q]. l ! r = None"
      by auto
    from True p rec have "f ! p = f ! Suc p" by simp
    moreover have "\<forall>r\<in>set [p..<q]. l ! r = None"
    proof
      fix r assume "r \<in> set [p..<q]"
      then have "r = p \<or> r \<in> set [Suc p..<q]" by auto
      with True q(5) show "l ! r = None" by blast
    qed
    ultimately show ?thesis
      using q by (intro exI [of _ q]) simp
  qed
qed

lemma nearest_right:
  fixes l f :: "'a option list"
  assumes centre: "f ! hf = l ! hf" "l ! hf \<noteq> None"
    and rec: "\<forall>r. hf < r \<and> r \<le> n \<longrightarrow> f ! r = (if l ! r \<noteq> None then l ! r else f ! (r - 1))"
  shows "hf \<le> p \<Longrightarrow> p \<le> n \<Longrightarrow>
         \<exists>q. hf \<le> q \<and> q \<le> p \<and> l ! q \<noteq> None \<and> f ! p = l ! q
             \<and> (\<forall>r\<in>set [Suc q..<Suc p]. l ! r = None)"
proof (induction "p - hf" arbitrary: p)
  case 0
  then have "p = hf" by simp
  with centre show ?case
    by (intro exI [of _ hf]) simp
next
  case (Suc d)
  then have p: "hf < p" "p \<le> n" and d: "d = (p - 1) - hf" by simp_all
  show ?case
  proof (cases "l ! p = None")
    case False
    with p rec show ?thesis
      by (intro exI [of _ p]) simp
  next
    case True
    from p have "hf \<le> p - 1" "p - 1 \<le> n" by simp_all
    from Suc.hyps(1) [OF d this] obtain q where q: "hf \<le> q" "q \<le> p - 1" "l ! q \<noteq> None"
      "f ! (p - 1) = l ! q" "\<forall>r\<in>set [Suc q..<Suc (p - 1)]. l ! r = None"
      by auto
    from True p rec have "f ! p = f ! (p - 1)" by simp
    moreover have "\<forall>r\<in>set [Suc q..<Suc p]. l ! r = None"
    proof
      fix r assume "r \<in> set [Suc q..<Suc p]"
      with p have "r = p \<or> r \<in> set [Suc q..<Suc (p - 1)]" by auto
      with True q(5) show "l ! r = None" by blast
    qed
    ultimately show ?thesis
      using q p by (intro exI [of _ q]) simp
  qed
qed

lemma fill_names_nearest:
  fixes l :: "'a option list"
  assumes len: "length l = 2 * hf + 1" and centre: "l ! hf \<noteq> None"
  shows "\<exists>f. fill_names l (int hf) = Inr f \<and> length f = length l
           \<and> (\<forall>p<length l. \<exists>q. nearest_available l hf p q \<and> f ! p = l ! q)"
proof (cases "None \<in> set l")
  case False
  have "\<exists>q. nearest_available l hf p q \<and> l ! p = l ! q" if "p < length l" for p
  proof -
    from that False have "l ! p \<noteq> None"
      by (metis nth_mem)
    then have "nearest_available l hf p p"
      by (simp add: nearest_available_def)
    then show ?thesis by blast
  qed
  with False show ?thesis
    by (simp add: fill_names_def)
next
  case True
  let ?l1 = "fill_left l hf"
  let ?f = "fill_right ?l1 hf"
  from len have hl: "hf < length l" "hf + hf < length l" by simp_all
  from fill_left_inv [OF hl(1), of hf]
  have l1: "length ?l1 = length l" "\<And>r. r < length l \<Longrightarrow> hf \<le> r \<Longrightarrow> ?l1 ! r = l ! r"
    "\<And>r. r < hf \<Longrightarrow> ?l1 ! r = (if l ! r \<noteq> None then l ! r else ?l1 ! Suc r)"
    by (simp_all add: fill_left_fold)
  from hl(2) l1(1) have "hf + hf < length ?l1" by simp
  from fill_right_inv [OF this, of hf]
  have f: "length ?f = length l" "\<And>r. r < length l \<Longrightarrow> r \<le> hf \<Longrightarrow> ?f ! r = ?l1 ! r"
    "\<And>r. hf < r \<Longrightarrow> r \<le> hf + hf \<Longrightarrow> ?f ! r = (if ?l1 ! r \<noteq> None then ?l1 ! r else ?f ! (r - 1))"
    by (simp_all add: fill_right_fold l1(1))
  have fc: "?f ! hf = l ! hf"
    using f(2) [of hf] l1(2) [of hf] hl by simp
  have frec: "\<forall>r. hf < r \<and> r \<le> hf + hf \<longrightarrow> ?f ! r = (if l ! r \<noteq> None then l ! r else ?f ! (r - 1))"
    using f(3) l1(2) hl by simp
  have "\<exists>q. nearest_available l hf p q \<and> ?f ! p = l ! q" if p: "p < length l" for p
  proof (cases "p \<le> hf")
    case True
    from nearest_left [of ?l1 hf l p] l1(2) [of hf] l1(3) hl centre True
    obtain q where "p \<le> q" "q \<le> hf" "l ! q \<noteq> None" "?l1 ! p = l ! q"
      "\<forall>r\<in>set [p..<q]. l ! r = None"
      by auto
    with True f(2) [OF p] show ?thesis
      by (auto simp: nearest_available_def)
  next
    case False
    with p len have "hf \<le> p" "p \<le> hf + hf" by simp_all
    from nearest_right [OF fc centre frec this]
    obtain q where "hf \<le> q" "q \<le> p" "l ! q \<noteq> None" "?f ! p = l ! q"
      "\<forall>r\<in>set [Suc q..<Suc p]. l ! r = None"
      by auto
    with False show ?thesis
      by (auto simp: nearest_available_def)
  qed
  with True centre f(1) show ?thesis
    by (simp add: fill_names_def)
qed

lemma length_img_name_list:
  "length (img_name_list E dname fname ext fidx hf gap) = nat (2 * hf + 1)"
  by (simp add: img_name_list_def)

lemma nth_img_name_list:
  "q < nat (2 * hf + 1) \<Longrightarrow>
   img_name_list E dname fname ext fidx hf gap ! q
     = frame_name E dname fname ext fidx gap (int q - hf)"
  by (simp add: img_name_list_def)

lemma read_all_Some: "read_all E (map Some names) = Inr (map (imread E) names)"
  by (induction names) simp_all

lemma length_candidates:
  "length (candidates E self info) = nat (2 * hf_size (block_size self) + 1)"
  by (simp add: candidates_def Let_def split_beta length_img_name_list)

lemma nth_candidates_centre:
  "0 \<le> hf_size (block_size self) \<Longrightarrow>
   candidates E self info ! nat (hf_size (block_size self)) \<noteq> None"
  by (simp add: candidates_def Let_def split_beta nth_img_name_list frame_name_def)

lemma block_names_ok:
  fixes E :: "'img env" and self :: "('img, 'm) dataset"
  shows "\<exists>names. block_names E self info = Inr (map Some names)
     \<and> length names = nat (2 * hf_size (block_size self) + 1)
     \<and> (\<forall>p<length names. \<exists>q.
           nearest_available (candidates E self info) (nat (hf_size (block_size self))) p q
           \<and> candidates E self info ! q = Some (names ! p))"
proof (cases "0 \<le> hf_size (block_size self)")
  case False
  then have "candidates E self info = []"
    using length_candidates [of E self info] by simp
  then have "block_names E self info = Inr (map Some [])"
    by (simp add: block_names_def fill_names_def)
  moreover from False have "length ([] :: string list) = nat (2 * hf_size (block_size self) + 1)"
    by simp
  ultimately show ?thesis
    by (metis length_greater_0_conv less_nat_zero_code list.size(3))
next
  case True
  let ?hf = "nat (hf_size (block_size self))"
  let ?l = "candidates E self info"
  from True have len: "length ?l = 2 * ?hf + 1"
    by (simp add: length_candidates nat_add_distrib nat_mult_distrib)
  from True have centre: "?l ! ?hf \<noteq> None"
    by (rule nth_candidates_centre)
  from fill_names_nearest [OF len centre] True obtain f
    where f: "block_names E self info = Inr f" "length f = length ?l"
      "\<forall>p<length ?l. \<exists>q. nearest_available ?l ?hf p q \<and> f ! p = ?l ! q"
    by (auto simp: block_names_def)
  have some: "\<exists>q. nearest_available ?l ?hf p q \<and> ?l ! q = Some (the (f ! p))"
    if "p < length ?l" for p
  proof -
    from f(3) that obtain q where q: "nearest_available ?l ?hf p q" "f ! p = ?l ! q"
      by blast
    then have "?l ! q \<noteq> None"
      by (simp add: nearest_available_def)
    with q show ?thesis by auto
  qed
  have "f = map Some (map the f)"
  proof (rule nth_equalityI)
    show "length f = length (map Some (map the f))" by simp
  next
    fix p assume "p < length f"
    with f(2) some [of p] f(3) show "f ! p = map Some (map the f) ! p"
      by (auto simp: nearest_available_def)
  qed
  with f(1) have "block_names E self info = Inr (map Some (map the f))"
    by simp
  moreover have "length (map the f) = nat (2 * hf_size (block_size self) + 1)"
    using f(2) by (simp add: length_candidates)
  moreover have "\<forall>p<length (map the f). \<exists>q. nearest_available ?l ?hf p q
      \<and> ?l ! q = Some (map the f ! p)"
    using some f(2) by simp
  ultimately show ?thesis by blast
qed

lemma hf_size_odd: "0 < bs \<Longrightarrow> odd bs \<Longrightarrow> 2 * hf_size bs + 1 = bs"
  by (auto simp: hf_size_def elim!: oddE)

lemma if_True_False: "(if b then True else False) = b"
  by simp

lemma apply_transforms_imgs:
  fixes E :: "'img env" and self :: "('img, 'm) dataset"
  assumes "apply_transforms E self u v info img_list props gti = Inr (Some data)"
  shows "np_stack E
           (map fst (transform_all self
              (random_scale E v (img_scales self) (multiscale_mode self))
              (u < flip_ratio self) img_list))
         = Inr (data_imgs data)
       \<and> flip (data_img_meta data) = (u < flip_ratio self)"
  using assms
  by (auto simp: apply_transforms_def Let_def ebind_Inr_iff split_beta if_True_False)

lemma prepare_train_img_SomeD:
  fixes E :: "'img env" and self :: "('img, 'm) dataset"
  assumes "prepare_train_img E self u v idx = Inr (Some data)"
  shows "idx < length (img_infos self)
     \<and> (\<exists>names img_list props gti.
          block_names E self (img_infos self ! idx) = Inr names
          \<and> read_all E names = Inr img_list
          \<and> apply_transforms E self u v (img_infos self ! idx) img_list props gti
              = Inr (Some data))"
  using assms
  by (auto simp: prepare_train_img_def Let_def ebind_Inr_iff
      split: if_split_asm option.split_asm)

lemma nth_candidates:
  "q < nat (2 * hf_size (block_size self) + 1) \<Longrightarrow>
   candidates E self info ! q = block_frame E self info (int q - hf_size (block_size self))"
  by (simp add: candidates_def block_frame_def Let_def split_beta nth_img_name_list
      frame_name_def)

lemma nearest_available_frame:
  fixes E :: "'img env" and self :: "('img, 'm) dataset"
  assumes hf: "0 \<le> hf_size (block_size self)"
    and p: "p < nat (2 * hf_size (block_size self) + 1)"
    and na: "nearest_available (candidates E self info) (nat (hf_size (block_size self))) p q"
  shows "nearest_frame E self info (int p - hf_size (block_size self))
           (int q - hf_size (block_size self))"
proof -
  let ?hf = "hf_size (block_size self)"
  let ?c = "candidates E self info"
  have c: "?c ! r = block_frame E self info (int r - ?hf)" if "r < nat (2 * ?hf + 1)" for r
    using that by (rule nth_candidates)
  from na have q0: "?c ! q \<noteq> None"
    by (simp add: nearest_available_def)
  show ?thesis
  proof (cases "p \<le> nat ?hf")
    case True
    with na have q: "p \<le> q" "q \<le> nat ?hf" and none: "\<forall>r\<in>set [p..<q]. ?c ! r = None"
      by (simp_all add: nearest_available_def)
    from q hf have ql: "q < nat (2 * ?hf + 1)" by linarith
    have "block_frame E self info r = None" if r: "r \<in> set [int p - ?hf..int q - ?hf - 1]" for r
    proof -
      from r have b: "int p - ?hf \<le> r" "r < int q - ?hf" by simp_all
      then have "p \<le> nat (r + ?hf)" "nat (r + ?hf) < q" by linarith+
      then have "nat (r + ?hf) \<in> set [p..<q]" by simp
      with none have "?c ! nat (r + ?hf) = None" by blast
      moreover from b ql have "nat (r + ?hf) < nat (2 * ?hf + 1)" by linarith
      ultimately show ?thesis
        using c [of "nat (r + ?hf)"] b by simp
    qed
    moreover from True q hf have "int p \<le> ?hf" "int q \<le> ?hf" "int p \<le> int q"
      by linarith+
    ultimately show ?thesis
      using q0 c [OF ql] by (simp add: nearest_frame_def)
  next
    case False
    with na have q: "nat ?hf \<le> q" "q \<le> p" and none: "\<forall>r\<in>set [Suc q..<Suc p]. ?c ! r = None"
      by (simp_all add: nearest_available_def)
    from q p have ql: "q < nat (2 * ?hf + 1)" by linarith
    have "block_frame E self info r = None" if r: "r \<in> set [int q - ?hf + 1..int p - ?hf]" for r
    proof -
      from r have b: "int q - ?hf < r" "r \<le> int p - ?hf" by simp_all
      with hf have "Suc q \<le> nat (r + ?hf)" "nat (r + ?hf) < Suc p" by linarith+
      then have "nat (r + ?hf) \<in> set [Suc q..<Suc p]" by (simp del: upt_Suc)
      with none have "?c ! nat (r + ?hf) = None" by blast
      moreover from b p have "nat (r + ?hf) < nat (2 * ?hf + 1)" by linarith
      ultimately show ?thesis
        using c [of "nat (r + ?hf)"] b hf by simp
    qed
    moreover from False q hf have "\<not> int p \<le> ?hf" "?hf \<le> int q" "int q \<le> int p"
      by linarith+
    ultimately show ?thesis
      using q0 c [OF ql] by (simp add: nearest_frame_def)
  qed
qed

lemma block_names_frames:
  fixes E :: "'img env" and self :: "('img, 'm) dataset"
  shows "\<exists>names. block_names E self info = Inr (map Some names)
     \<and> length names = nat (2 * hf_size (block_size self) + 1)
     \<and> (\<forall>p<length names. \<exists>j.
           nearest_frame E self info (int p - hf_size (block_size self)) j
           \<and> block_frame E self info j = Some (names ! p))"
proof -
  let ?hf = "hf_size (block_size self)"
  from block_names_ok [of E self info] obtain names where
    n: "block_names E self info = Inr (map Some names)"
    "length names = nat (2 * ?hf + 1)"
    "\<forall>p<length names. \<exists>q. nearest_available (candidates E self info) (nat ?hf) p q
        \<and> candidates E self info ! q = Some (names ! p)"
    by blast
  have "\<exists>j. nearest_frame E self info (int p - ?hf) j
        \<and> block_frame E self info j = Some (names ! p)" if p: "p < length names" for p
  proof -
    from p n(2) have hf: "0 \<le> ?hf" and pl: "p < nat (2 * ?hf + 1)" by simp_all
    from n(3) p obtain q where
      q: "nearest_available (candidates E self info) (nat ?hf) p q"
      "candidates E self info ! q = Some (names ! p)"
      by blast
    from q(1) pl hf have "q < nat (2 * ?hf + 1)"
      by (auto simp: nearest_available_def split: if_split_asm)
    from nth_candidates [OF this, of E info] q(2)
    have "block_frame E self info (int q - ?hf) = Some (names ! p)" by simp
    with nearest_available_frame [OF hf pl q(1)] show ?thesis by blast
  qed
  with n(1,2) show ?thesis by blast
qed

lemmas demo_ds_defs = demo_isdigit_def demo_int_def demo_format_def demo_env_def demo_info_def
  demo_dataset_def

lemmas ds_defs = candidates_def img_name_list_def frame_name_def hf_size_def block_names_def
  fill_names_def fill_left_def fill_right_def left_step_def right_step_def

lemma demo_candidates: "candidates demo_env demo_dataset demo_info
    = [None, Some ''d/000005.jpg'', Some ''d/000010.jpg'', None, Some ''d/000020.jpg'']"
  by (simp add: ds_defs demo_ds_defs Let_def upto.simps)

lemma demo_hf_size: "hf_size (block_size demo_dataset) = 2"
  by (simp add: hf_size_def demo_dataset_def)

lemma demo_block_frames:
  "map (block_frame demo_env demo_dataset demo_info) [- 2, - 1, 0, 1, 2]
    = [None, Some ''d/000005.jpg'', Some ''d/000010.jpg'', None, Some ''d/000020.jpg'']"
  by (simp add: block_frame_def demo_ds_defs Let_def)

lemma demo_nearest_frames:
  "nearest_frame demo_env demo_dataset demo_info (- 2) (- 1)"
  "nearest_frame demo_env demo_dataset demo_info (- 1) (- 1)"
  "nearest_frame demo_env demo_dataset demo_info 0 0"
  "nearest_frame demo_env demo_dataset demo_info 1 0"
  "nearest_frame demo_env demo_dataset demo_info 2 2"
  using demo_block_frames by (simp_all add: nearest_frame_def upto.simps)

lemma demo_block_names: "block_names demo_env demo_dataset demo_info
    = Inr [Some ''d/000005.jpg'', Some ''d/000005.jpg'', Some ''d/000010.jpg'',
           Some ''d/000010.jpg'', Some ''d/000020.jpg'']"
  by (simp add: block_names_def fill_names_def demo_candidates demo_hf_size fill_left_def fill_right_def
      left_step_def right_step_def numeral_2_eq_2)

lemma demo_prepare_train_img: "prepare_train_img demo_env demo_dataset (1 / 4) [1] 0
    = Inr (Some
        \<lparr> data_imgs = [(''d/000005.jpg'', (20, 20), True), (''d/000005.jpg'', (20, 20), True),
                       (''d/000010.jpg'', (20, 20), True), (''d/000010.jpg'', (20, 20), True),
                       (''d/000020.jpg'', (20, 20), True)],
          data_img_meta =
            \<lparr> ori_shape = (10, 10, 3), meta_img_shape = (10, 10, 3),
              pad_shape = (10, 10, 3), scale_factor = 1, flip = True \<rparr>,
          data_gt_bboxes = [[1, 1, 5, 5]],
          data_proposals = None,
          data_gt_labels = Some [1],
          data_gt_bboxes_ignore = Some [],
          data_gt_masks = None,
          data_gt_semantic_seg = None \<rparr>)"
proof -
  have i: "img_infos demo_dataset ! 0 = demo_info" "0 < length (img_infos demo_dataset)"
    by (simp_all add: demo_dataset_def)
  show ?thesis
    unfolding prepare_train_img_def Let_def i demo_block_names
    by (simp add: load_proposals_def apply_transforms_def transform_all_def Let_def
        demo_dataset_def demo_env_def demo_info_def)
qed

lemma demo_candidates_even:
  "candidates demo_env demo_dataset_even demo_info
    = [Some ''d/000005.jpg'', Some ''d/000010.jpg'', None]"
  by (simp add: ds_defs demo_ds_defs demo_dataset_even_def Let_def upto.simps)

lemma demo_block_names_even:
  "block_names demo_env demo_dataset_even demo_info
    = Inr [Some ''d/000005.jpg'', Some ''d/000010.jpg'', Some ''d/000010.jpg'']"
proof -
  have "hf_size (block_size demo_dataset_even) = 1"
    by (simp add: hf_size_def demo_dataset_even_def demo_dataset_def)
  then show ?thesis
    by (simp add: block_names_def fill_names_def demo_candidates_even fill_left_def
        fill_right_def left_step_def right_step_def)
qed





section \<open>Properties of the block dataset\<close>

text \<open>
  C6, as the claim states it, fails for an even block size: with \<open>block_size = 4\<close> the
  block that \<open>prepare_train_img\<close> loads and stacks has three frames, one on each side
  of the annotated frame.
\<close>

theorem prepare_train_img_even_counterexample:
  "block_size demo_dataset_even = 4
   \<and> prepare_train_img demo_env demo_dataset_even (1 / 2) [0] 0
     = Inr (Some
        \<lparr> data_imgs = [(''d/000005.jpg'', (10, 10), False), (''d/000010.jpg'', (10, 10), False),
                       (''d/000010.jpg'', (10, 10), False)],
          data_img_meta =
            \<lparr> ori_shape = (10, 10, 3), meta_img_shape = (10, 10, 3),
              pad_shape = (10, 10, 3), scale_factor = 1, flip = False \<rparr>,
          data_gt_bboxes = [[1, 1, 5, 5]],
          data_proposals = None,
          data_gt_labels = Some [1],
          data_gt_bboxes_ignore = Some [],
          data_gt_masks = None,
          data_gt_semantic_seg = None \<rparr>)
   \<and> int (length [(''d/000005.jpg'', (10, 10 :: nat), False),
                   (''d/000010.jpg'', (10, 10 :: nat), False),
                   (''d/000010.jpg'', (10, 10 :: nat), False)])
       \<noteq> block_size demo_dataset_even"
proof -
  have i: "img_infos demo_dataset_even ! 0 = demo_info"
    "0 < length (img_infos demo_dataset_even)"
    by (simp_all add: demo_dataset_even_def demo_dataset_def)
  have "prepare_train_img demo_env demo_dataset_even (1 / 2) [0] 0
     = Inr (Some
        \<lparr> data_imgs = [(''d/000005.jpg'', (10, 10), False), (''d/000010.jpg'', (10, 10), False),
                       (''d/000010.jpg'', (10, 10), False)],
          data_img_meta =
            \<lparr> ori_shape = (10, 10, 3), meta_img_shape = (10, 10, 3),
              pad_shape = (10, 10, 3), scale_factor = 1, flip = False \<rparr>,
          data_gt_bboxes = [[1, 1, 5, 5]],
          data_proposals = None,
          data_gt_labels = Some [1],
          data_gt_bboxes_ignore = Some [],
          data_gt_masks = None,
          data_gt_semantic_seg = None \<rparr>)"
    unfolding prepare_train_img_def Let_def i demo_block_names_even
    by (simp add: load_proposals_def apply_transforms_def transform_all_def Let_def
        demo_dataset_even_def demo_dataset_def demo_env_def demo_info_def)
  then show ?thesis
    by (simp add: demo_dataset_even_def demo_dataset_def)
qed

text \<open>
  C6, amended. Whenever \<open>prepare_train_img\<close> returns a sample, it has loaded a block of
  \<open>2 * hf_size + 1\<close> frames, where \<open>hf_size = int((block_size - 1) / 2)\<close>: that is
  \<open>block_size\<close> frames when \<open>block_size\<close> is odd and positive. The frame at position
  \<open>p\<close> of the block, whose offset from the annotated frame is \<open>p - hf_size\<close>, is the
  frame at the nearest offset towards the annotated frame at which there is a frame
  (\<open>nearest_frame\<close>); the frame at offset 0 is the annotated file, and the frame at
  another offset \<open>j\<close> is the file whose number is that of the annotated file plus
  \<open>j * block_gap\<close>, which is there only if the name of the annotated file is a number and
  the file exists (\<open>block_frame\<close>). Every frame goes through \<open>img_transform\<close> with the
  one scale that the one call of \<open>random_scale\<close> has drawn and with the one flip flag,
  the returned \<open>imgs\<close> is the stack of the transformed frames, in the order of the
  positions, and the returned \<open>img_meta\<close> holds the flip flag.
\<close>

theorem prepare_train_img_block:
  fixes E :: "'img env" and self :: "('img, 'm) dataset"
  assumes "prepare_train_img E self u v idx = Inr (Some data)"
  shows "\<exists>names.
      block_names E self (img_infos self ! idx) = Inr (map Some names)
    \<and> length names = nat (2 * hf_size (block_size self) + 1)
    \<and> (0 < block_size self \<and> odd (block_size self) \<longrightarrow> int (length names) = block_size self)
    \<and> (\<forall>p<length names. \<exists>j.
          nearest_frame E self (img_infos self ! idx) (int p - hf_size (block_size self)) j
          \<and> block_frame E self (img_infos self ! idx) j = Some (names ! p))
    \<and> np_stack E
         (map (\<lambda>name. fst (img_transform self (imread E name)
                              (random_scale E v (img_scales self) (multiscale_mode self))
                              (u < flip_ratio self) (resize_keep_ratio self)))
            names)
       = Inr (data_imgs data)
    \<and> flip (data_img_meta data) = (u < flip_ratio self)"
proof -
  let ?info = "img_infos self ! idx"
  from prepare_train_img_SomeD [OF assms] obtain names' img_list props gti where
    bn: "block_names E self ?info = Inr names'"
    and ra: "read_all E names' = Inr img_list"
    and at: "apply_transforms E self u v ?info img_list props gti = Inr (Some data)"
    by blast
  from block_names_frames [of E self ?info] obtain names where
    n: "block_names E self ?info = Inr (map Some names)"
    "length names = nat (2 * hf_size (block_size self) + 1)"
    "\<forall>p<length names. \<exists>j.
        nearest_frame E self ?info (int p - hf_size (block_size self)) j
        \<and> block_frame E self ?info j = Some (names ! p)"
    by blast
  from bn n(1) have "names' = map Some names" by simp
  with ra have il: "img_list = map (imread E) names"
    by (simp add: read_all_Some)
  from apply_transforms_imgs [OF at]
  have st: "np_stack E
         (map (\<lambda>name. fst (img_transform self (imread E name)
                              (random_scale E v (img_scales self) (multiscale_mode self))
                              (u < flip_ratio self) (resize_keep_ratio self)))
            names)
       = Inr (data_imgs data)"
    and fl: "flip (data_img_meta data) = (u < flip_ratio self)"
    by (simp_all add: il transform_all_def comp_def)
  have odd: "0 < block_size self \<and> odd (block_size self) \<longrightarrow> int (length names) = block_size self"
    using n(2) hf_size_odd [of "block_size self"] by auto
  from n odd st fl show ?thesis by blast
qed

theorem prepare_train_img_block_witness:
  "prepare_train_img demo_env demo_dataset (1 / 4) [1] 0
    = Inr (Some
        \<lparr> data_imgs = [(''d/000005.jpg'', (20, 20), True), (''d/000005.jpg'', (20, 20), True),
                       (''d/000010.jpg'', (20, 20), True), (''d/000010.jpg'', (20, 20), True),
                       (''d/000020.jpg'', (20, 20), True)],
          data_img_meta =
            \<lparr> ori_shape = (10, 10, 3), meta_img_shape = (10, 10, 3),
              pad_shape = (10, 10, 3), scale_factor = 1, flip = True \<rparr>,
          data_gt_bboxes = [[1, 1, 5, 5]],
          data_proposals = None,
          data_gt_labels = Some [1],
          data_gt_bboxes_ignore = Some [],
          data_gt_masks = None,
          data_gt_semantic_seg = None \<rparr>)
   \<and> block_size demo_dataset = 5 \<and> block_gap demo_dataset = 5
   \<and> hf_size (block_size demo_dataset) = 2
   \<and> map (block_frame demo_env demo_dataset (img_infos demo_dataset ! 0)) [- 2, - 1, 0, 1, 2]
       = [None, Some ''d/000005.jpg'', Some ''d/000010.jpg'', None, Some ''d/000020.jpg'']
   \<and> nearest_frame demo_env demo_dataset (img_infos demo_dataset ! 0) (- 2) (- 1)
   \<and> nearest_frame demo_env demo_dataset (img_infos demo_dataset ! 0) (- 1) (- 1)
   \<and> nearest_frame demo_env demo_dataset (img_infos demo_dataset ! 0) 0 0
   \<and> nearest_frame demo_env demo_dataset (img_infos demo_dataset ! 0) 1 0
   \<and> nearest_frame demo_env demo_dataset (img_infos demo_dataset ! 0) 2 2
   \<and> block_names demo_env demo_dataset (img_infos demo_dataset ! 0)
       = Inr (map Some [''d/000005.jpg'', ''d/000005.jpg'', ''d/000010.jpg'',
                        ''d/000010.jpg'', ''d/000020.jpg''])
   \<and> int (length [''d/000005.jpg'', ''d/000005.jpg'', ''d/000010.jpg'',
                    ''d/000010.jpg'', ''d/000020.jpg'']) = block_size demo_dataset
   \<and> random_scale demo_env [1] (img_scales demo_dataset) (multiscale_mode demo_dataset)
       = (20, 20)
   \<and> random_scale demo_env [0] (img_scales demo_dataset) (multiscale_mode demo_dataset)
       = (10, 10)
   \<and> ((1 / 4 :: real) < flip_ratio demo_dataset)"
proof -
  have i: "img_infos demo_dataset ! 0 = demo_info"
    by (simp add: demo_dataset_def)
  have b5: "block_size demo_dataset = 5" "block_gap demo_dataset = 5"
    by (simp_all add: demo_dataset_def)
  have rs: "random_scale demo_env [1] (img_scales demo_dataset) (multiscale_mode demo_dataset)
       = (20, 20)"
    "random_scale demo_env [0] (img_scales demo_dataset) (multiscale_mode demo_dataset)
       = (10, 10)"
    "(1 / 4 :: real) < flip_ratio demo_dataset"
    by (simp_all add: demo_dataset_def demo_env_def)
  have h5: "hf_size 5 = 2"
    by (simp add: hf_size_def)
  from prepare_train_img_block [OF demo_prepare_train_img] show ?thesis
    using demo_prepare_train_img demo_nearest_frames demo_block_frames rs
    by (simp add: i demo_block_names b5 h5)
qed

section \<open>Lemmas about errors\<close>






section \<open>Properties of the error handling\<close>




end
